theory Spec2Isabelle
  imports Complex_Main
begin

section \<open>Stored bars\<close>

text \<open>
  A row of \<^verbatim>\<open>data_bars\<close> (or of \<^verbatim>\<open>derived_data_bars\<close>), with the columns named by the
  INSERT of \<^verbatim>\<open>calc_dxy_range_1m\<close>. Timestamps are microseconds since the epoch, the
  resolution of \<^verbatim>\<open>timestamptz\<close>. Nullable numeric columns are options: \<open>None\<close> is SQL NULL.
  The column \<^verbatim>\<open>open\<close> is named \<open>open_col\<close>.
\<close>

datatype json = JNull | JBool bool | JInt int | JStr string | JObj "(string \<times> json) list"

record bar =
  canonical_symbol :: string
  timeframe :: string
  ts_utc :: int
  open_col :: "real option"
  high :: "real option"
  low :: "real option"
  close :: "real option"
  vol :: "real option"
  vwap :: "real option"
  trade_count :: "int option"
  is_partial :: bool
  source :: string
  ingested_at :: int
  raw :: json

text \<open>The unique key \<^verbatim>\<open>(canonical_symbol, timeframe, ts_utc)\<close>.\<close>

definition bar_key :: "bar \<Rightarrow> string \<times> string \<times> int" where
  "bar_key b = (canonical_symbol b, timeframe b, ts_utc b)"

definition usec_per_minute :: int where
  "usec_per_minute = 60000000"

definition usec_per_hour :: int where
  "usec_per_hour = 3600000000"

section \<open>SQL comparisons and aggregates over nullable values\<close>

text \<open>
  A WHERE, FILTER or HAVING clause keeps a row only when its condition is TRUE, so a
  comparison with a NULL operand (UNKNOWN) behaves as not satisfied. Each function below
  is "the comparison evaluates to TRUE".
\<close>

fun sql_lt :: "real option \<Rightarrow> real option \<Rightarrow> bool" where
  "sql_lt (Some x) (Some y) = (x < y)"
| "sql_lt _ _ = False"

fun sql_eq :: "real option \<Rightarrow> real option \<Rightarrow> bool" where
  "sql_eq (Some x) (Some y) = (x = y)"
| "sql_eq _ _ = False"

definition sql_gt :: "real option \<Rightarrow> real option \<Rightarrow> bool" where
  "sql_gt x y = sql_lt y x"

text \<open>\<^verbatim>\<open>MAX\<close> skips NULLs and is NULL on no non-NULL input.\<close>

fun sql_max :: "real option list \<Rightarrow> real option" where
  "sql_max [] = None"
| "sql_max (None # xs) = sql_max xs"
| "sql_max (Some x # xs) = (case sql_max xs of None \<Rightarrow> Some x | Some y \<Rightarrow> Some (max x y))"

section \<open>The synthetic index: \<^verbatim>\<open>calc_dxy_range_1m\<close>\<close>

datatype calc_result =
    Failed string
  | Succeeded (inserted: nat) (updated: nat) (skipped: nat) (version: int)

definition dxy_components :: "string list" where
  "dxy_components = [''EURUSD'', ''USDJPY'', ''GBPUSD'', ''USDCAD'', ''USDSEK'', ''USDCHF'']"

text \<open>The rows both \<^verbatim>\<open>base_timestamps\<close> and \<^verbatim>\<open>fx_pivoted\<close> select from.\<close>

definition component_rows :: "bar list \<Rightarrow> int \<Rightarrow> int \<Rightarrow> bar list" where
  "component_rows data_bars p_from_utc p_to_utc =
     filter (\<lambda>b. canonical_symbol b \<in> set dxy_components \<and> timeframe b = ''1m''
                 \<and> p_from_utc \<le> ts_utc b \<and> ts_utc b < p_to_utc) data_bars"

definition base_timestamps :: "bar list \<Rightarrow> int \<Rightarrow> int \<Rightarrow> int list" where
  "base_timestamps data_bars p_from_utc p_to_utc =
     remdups (map ts_utc (component_rows data_bars p_from_utc p_to_utc))"

record fx_row =
  fx_ts :: int
  eurusd :: "real option"
  usdjpy :: "real option"
  gbpusd :: "real option"
  usdcad :: "real option"
  usdsek :: "real option"
  usdchf :: "real option"

text \<open>\<^verbatim>\<open>MAX(CASE WHEN canonical_symbol = symb THEN close END)\<close> over one group.\<close>

definition pivot :: "string \<Rightarrow> bar list \<Rightarrow> real option" where
  "pivot symb grp = sql_max (map (\<lambda>b. if canonical_symbol b = symb then close b else None) grp)"

definition fx_pivoted :: "bar list \<Rightarrow> int \<Rightarrow> int \<Rightarrow> fx_row list" where
  "fx_pivoted data_bars p_from_utc p_to_utc =
     (let rows = component_rows data_bars p_from_utc p_to_utc in
      map (\<lambda>ts. let grp = filter (\<lambda>b. ts_utc b = ts) rows in
             \<lparr>fx_ts = ts,
              eurusd = pivot ''EURUSD'' grp, usdjpy = pivot ''USDJPY'' grp,
              gbpusd = pivot ''GBPUSD'' grp, usdcad = pivot ''USDCAD'' grp,
              usdsek = pivot ''USDSEK'' grp, usdchf = pivot ''USDCHF'' grp\<rparr>)
          (remdups (map ts_utc rows)))"

definition valid_tuple :: "fx_row \<Rightarrow> bool" where
  "valid_tuple r \<longleftrightarrow>
     sql_gt (eurusd r) (Some 0) \<and> sql_gt (usdjpy r) (Some 0) \<and> sql_gt (gbpusd r) (Some 0)
     \<and> sql_gt (usdcad r) (Some 0) \<and> sql_gt (usdsek r) (Some 0) \<and> sql_gt (usdchf r) (Some 0)"

definition valid_tuples :: "bar list \<Rightarrow> int \<Rightarrow> int \<Rightarrow> fx_row list" where
  "valid_tuples data_bars p_from_utc p_to_utc =
     filter valid_tuple (fx_pivoted data_bars p_from_utc p_to_utc)"

text \<open>
  The database's \<^verbatim>\<open>ln\<close> and \<^verbatim>\<open>exp\<close> on \<^verbatim>\<open>numeric\<close> values. PostgreSQL computes them to a
  finite number of digits that the source does not fix, so they are parameters of the
  model; \<open>exact_math\<close> is the instance with the real functions. Products of
  \<^verbatim>\<open>numeric\<close> values are exact.
\<close>

record pg_math =
  pg_ln :: "real \<Rightarrow> real"
  pg_exp :: "real \<Rightarrow> real"

definition exact_math :: pg_math where
  "exact_math = \<lparr>pg_ln = ln, pg_exp = exp\<rparr>"

text \<open>The price expression of \<^verbatim>\<open>dxy_bars\<close> before the cast.\<close>

definition dxy_formula ::
    "pg_math \<Rightarrow> real \<Rightarrow> real \<Rightarrow> real \<Rightarrow> real \<Rightarrow> real \<Rightarrow> real \<Rightarrow> real" where
  "dxy_formula pg e j g c s h =
     50.14348112
     * pg_exp pg (-0.576 * pg_ln pg e)
     * pg_exp pg (0.136 * pg_ln pg j)
     * pg_exp pg (-0.119 * pg_ln pg g)
     * pg_exp pg (0.091 * pg_ln pg c)
     * pg_exp pg (0.042 * pg_ln pg s)
     * pg_exp pg (0.036 * pg_ln pg h)"

text \<open>
  The cast \<^verbatim>\<open>::DECIMAL(20,8)\<close>: round to eight decimals, half away from zero; a value with
  more than twelve integer digits is the error "numeric field overflow" (\<open>None\<close>).
\<close>

definition round_half_away :: "real \<Rightarrow> int" where
  "round_half_away x = (if 0 \<le> x then \<lfloor>x + 1/2\<rfloor> else - \<lfloor>- x + 1/2\<rfloor>)"

definition decimal_20_8 :: "real \<Rightarrow> real option" where
  "decimal_20_8 x =
     (let n = round_half_away (x * 10 ^ 8) in
      if \<bar>n\<bar> < 10 ^ 20 then Some (real_of_int n / 10 ^ 8) else None)"

definition dxy_price :: "pg_math \<Rightarrow> fx_row \<Rightarrow> real option" where
  "dxy_price pg r =
     decimal_20_8 (dxy_formula pg (the (eurusd r)) (the (usdjpy r)) (the (gbpusd r))
                                  (the (usdcad r)) (the (usdsek r)) (the (usdchf r)))"

text \<open>The CTE \<^verbatim>\<open>dxy_bars\<close>: one \<open>(ts_utc, dxy_price)\<close> per valid tuple.\<close>

definition dxy_bars ::
    "pg_math \<Rightarrow> bar list \<Rightarrow> int \<Rightarrow> int \<Rightarrow> (int \<times> real option) list" where
  "dxy_bars pg data_bars p_from_utc p_to_utc =
     map (\<lambda>r. (fx_ts r, dxy_price pg r)) (valid_tuples data_bars p_from_utc p_to_utc)"

text \<open>The row the INSERT proposes for one \<^verbatim>\<open>dxy_bars\<close> row; \<open>now\<close> is \<^verbatim>\<open>NOW()\<close>.\<close>

definition dxy_row :: "int \<Rightarrow> int \<Rightarrow> int \<times> real option \<Rightarrow> bar" where
  "dxy_row p_derivation_version now tp =
     \<lparr>canonical_symbol = ''DXY'', timeframe = ''1m'', ts_utc = fst tp,
      open_col = snd tp, high = snd tp, low = snd tp, close = snd tp,
      vol = Some 0, vwap = None, trade_count = Some 0, is_partial = False,
      source = ''synthetic'', ingested_at = now,
      raw = JObj [(''kind'', JStr ''dxy''), (''version'', JInt p_derivation_version)]\<rparr>"

text \<open>
  \<^verbatim>\<open>ON CONFLICT (canonical_symbol, timeframe, ts_utc) DO UPDATE SET open, high, low, close,
  source, ingested_at\<close>: the other columns of an existing row stay. The flag is
  \<^verbatim>\<open>is_insert\<close>.
\<close>

definition do_update :: "bar \<Rightarrow> bar \<Rightarrow> bar" where
  "do_update excluded b =
     b\<lparr>open_col := open_col excluded, high := high excluded, low := low excluded,
       close := close excluded, source := ''synthetic'', ingested_at := ingested_at excluded\<rparr>"

definition upsert_row :: "bar list \<Rightarrow> bar \<Rightarrow> bar list \<times> bool" where
  "upsert_row tbl new =
     (if bar_key new \<in> set (map bar_key tbl)
      then (map (\<lambda>b. if bar_key b = bar_key new then do_update new b else b) tbl, False)
      else (tbl @ [new], True))"

fun upserted :: "bar list \<Rightarrow> bar list \<Rightarrow> bar list \<times> bool list" where
  "upserted tbl [] = (tbl, [])"
| "upserted tbl (new # news) =
     (let (tbl1, is_insert) = upsert_row tbl new;
          (tbl2, flags) = upserted tbl1 news
      in (tbl2, is_insert # flags))"

text \<open>
  The function: the result object and the table afterwards. An error inside the block
  (here the overflow of the cast) is caught by \<^verbatim>\<open>EXCEPTION WHEN OTHERS\<close>, which undoes the
  block's writes and returns the failure object.
\<close>

definition calc_dxy_range_1m ::
    "pg_math \<Rightarrow> bar list \<Rightarrow> int \<Rightarrow> int \<Rightarrow> int \<Rightarrow> int \<Rightarrow> calc_result \<times> bar list" where
  "calc_dxy_range_1m pg data_bars p_from_utc p_to_utc p_derivation_version now =
     (if p_from_utc \<ge> p_to_utc
      then (Failed ''p_from_utc must be before p_to_utc'', data_bars)
      else
        let rows = dxy_bars pg data_bars p_from_utc p_to_utc in
        if \<exists>tp \<in> set rows. snd tp = None
        then (Failed ''numeric field overflow'', data_bars)
        else
          let (tbl, flags) = upserted data_bars (map (dxy_row p_derivation_version now) rows);
              num_inserted = length (filter (\<lambda>f. f) flags);
              num_updated = length (filter (\<lambda>f. \<not> f) flags);
              num_skipped = length (filter (\<lambda>ts. ts \<notin> set (map fx_ts (valid_tuples data_bars p_from_utc p_to_utc)))
                                          (base_timestamps data_bars p_from_utc p_to_utc))
          in (Succeeded num_inserted num_updated num_skipped p_derivation_version, tbl))"

section \<open>Verification checks\<close>

text \<open>
  Each check is the SQL it sends, read as a function of the table. The lower bound of the
  time window, \<^verbatim>\<open>(now() at time zone 'utc') - interval '...'\<close>, is computed by the database
  and is the parameter \<open>since\<close>. \<^verbatim>\<open>ORDER BY\<close> only permutes the result and depends on the
  collation; the order of result rows is not modelled. \<^verbatim>\<open>date_trunc\<close> and \<^verbatim>\<open>extract\<close> are
  taken in UTC.
\<close>

definition date_trunc_hour :: "int \<Rightarrow> int" where
  "date_trunc_hour ts = ts - ts mod usec_per_hour"

definition extract_minute :: "int \<Rightarrow> int" where
  "extract_minute ts = (ts mod usec_per_hour) div usec_per_minute"

definition make_interval_mins :: "int \<Rightarrow> int" where
  "make_interval_mins m = m * usec_per_minute"

definition bar_5m_ts :: "int \<Rightarrow> int" where
  "bar_5m_ts ts = date_trunc_hour ts + make_interval_mins ((extract_minute ts div 5) * 5)"

subsection \<open>\<^verbatim>\<open>check_agg_consistency_1m_to_5m_coverage\<close>\<close>

record roll_row =
  roll_symbol :: string
  roll_bar_5m_ts :: int
  n_1m :: int

record coverage_row =
  cov_symbol :: string
  bad_5m_bars :: nat
  partial_5m_bars :: nat
  missing_5m_bars :: nat

definition src_1m :: "bar list \<Rightarrow> int \<Rightarrow> (string \<times> int) list" where
  "src_1m data_bars since =
     map (\<lambda>b. (canonical_symbol b, ts_utc b))
         (filter (\<lambda>b. timeframe b = ''1m'' \<and> since \<le> ts_utc b) data_bars)"

definition roll :: "bar list \<Rightarrow> int \<Rightarrow> roll_row list" where
  "roll data_bars since =
     (let src = src_1m data_bars since in
      map (\<lambda>(s, k). \<lparr>roll_symbol = s, roll_bar_5m_ts = k,
                      n_1m = int (length (filter (\<lambda>(s', t). s' = s \<and> bar_5m_ts t = k) src))\<rparr>)
          (remdups (map (\<lambda>(s, t). (s, bar_5m_ts t)) src)))"

text \<open>The rows left by \<^verbatim>\<open>where n_1m < %(min_required)s\<close>.\<close>

definition below_min_required :: "bar list \<Rightarrow> int \<Rightarrow> int \<Rightarrow> roll_row list" where
  "below_min_required data_bars since min_required =
     filter (\<lambda>r. n_1m r < min_required) (roll data_bars since)"

text \<open>
  The Python defaults are \<^verbatim>\<open>min_required_1m=5, strict=True\<close>. The SQL is built from
  \<^verbatim>\<open>active_days\<close> and \<^verbatim>\<open>min_required_1m\<close> only.
\<close>

definition check_agg_consistency_1m_to_5m_coverage ::
    "bar list \<Rightarrow> int \<Rightarrow> int \<Rightarrow> bool \<Rightarrow> coverage_row list" where
  "check_agg_consistency_1m_to_5m_coverage data_bars since min_required_1m strict =
     (let kept = below_min_required data_bars since min_required_1m in
      map (\<lambda>s. let grp = filter (\<lambda>r. roll_symbol r = s) kept in
             \<lparr>cov_symbol = s,
              bad_5m_bars = length (filter (\<lambda>r. n_1m r < min_required_1m) grp),
              partial_5m_bars = length (filter (\<lambda>r. n_1m r > 0 \<and> n_1m r < 5) grp),
              missing_5m_bars = length (filter (\<lambda>r. n_1m r = 0) grp)\<rparr>)
          (remdups (map roll_symbol kept)))"

subsection \<open>Ordered series with \<^verbatim>\<open>lag\<close>\<close>

text \<open>
  \<^verbatim>\<open>lag(ts_utc) over (partition by canonical_symbol order by ts_utc)\<close>: the timestamps of
  one symbol in ascending order, each with its predecessor (NULL for the first).
\<close>

definition window_rows :: "bar list \<Rightarrow> string \<Rightarrow> int \<Rightarrow> bar list" where
  "window_rows tbl tf since = filter (\<lambda>b. timeframe b = tf \<and> since \<le> ts_utc b) tbl"

definition ordered_ts :: "bar list \<Rightarrow> string \<Rightarrow> int list" where
  "ordered_ts rows s = sort (map ts_utc (filter (\<lambda>b. canonical_symbol b = s) rows))"

definition with_lag :: "int list \<Rightarrow> (int \<times> int option) list" where
  "with_lag ts = zip ts (None # map Some ts)"

subsection \<open>\<^verbatim>\<open>check_timestamp_monotonicity\<close>\<close>

record mono_row =
  mono_symbol :: string
  non_monotonic_count :: nat

text \<open>\<^verbatim>\<open>where prev_ts is not null and ts_utc <= prev_ts\<close>.\<close>

definition non_monotonic :: "int list \<Rightarrow> (int \<times> int option) list" where
  "non_monotonic ts =
     filter (\<lambda>(t, prev). case prev of None \<Rightarrow> False | Some p \<Rightarrow> t \<le> p) (with_lag ts)"

definition check_timestamp_monotonicity :: "bar list \<Rightarrow> string \<Rightarrow> int \<Rightarrow> mono_row list" where
  "check_timestamp_monotonicity tbl tf since =
     (let rows = window_rows tbl tf since in
      map (\<lambda>s. \<lparr>mono_symbol = s,
                 non_monotonic_count = length (non_monotonic (ordered_ts rows s))\<rparr>)
          (filter (\<lambda>s. non_monotonic (ordered_ts rows s) \<noteq> [])
                  (remdups (map canonical_symbol rows))))"

subsection \<open>\<^verbatim>\<open>check_gap_density\<close>\<close>

record gap_row =
  gap_symbol :: string
  gap_events :: nat
  max_gap :: int

text \<open>
  The threshold \<^verbatim>\<open>interval '1 {('minute' if tf=='1m' else 'minute')}'\<close>.
\<close>

definition gap_interval :: "string \<Rightarrow> int" where
  "gap_interval tf = 1 * (if tf = ''1m'' then usec_per_minute else usec_per_minute)"

text \<open>The CTE \<^verbatim>\<open>gaps\<close> for one symbol: \<^verbatim>\<open>ts_utc - prev_ts where prev_ts is not null\<close>.\<close>

definition gaps :: "int list \<Rightarrow> int list" where
  "gaps ts =
     concat (map (\<lambda>(t, prev). case prev of None \<Rightarrow> [] | Some p \<Rightarrow> [t - p]) (with_lag ts))"

text \<open>\<^verbatim>\<open>if symbols:\<close> holds for a non-empty list.\<close>

definition sym_filter :: "string list option \<Rightarrow> bar \<Rightarrow> bool" where
  "sym_filter symbols b =
     (case symbols of None \<Rightarrow> True | Some [] \<Rightarrow> True
      | Some syms \<Rightarrow> canonical_symbol b \<in> set syms)"

definition check_gap_density ::
    "bar list \<Rightarrow> string \<Rightarrow> int \<Rightarrow> string list option \<Rightarrow> gap_row list" where
  "check_gap_density tbl tf since symbols =
     (let rows = filter (sym_filter symbols) (window_rows tbl tf since) in
      map (\<lambda>s. let g = gaps (ordered_ts rows s) in
             \<lparr>gap_symbol = s,
              gap_events = length (filter (\<lambda>gap. gap > gap_interval tf) g),
              max_gap = Max (set g)\<rparr>)
          (filter (\<lambda>s. gaps (ordered_ts rows s) \<noteq> [])
                  (remdups (map canonical_symbol rows))))"

subsection \<open>\<^verbatim>\<open>check_enhanced_ohlc_integrity\<close>\<close>

fun sql_minus :: "real option \<Rightarrow> real option \<Rightarrow> real option" where
  "sql_minus (Some x) (Some y) = Some (x - y)"
| "sql_minus _ _ = None"

definition nullif :: "real option \<Rightarrow> real \<Rightarrow> real option" where
  "nullif x v = (case x of None \<Rightarrow> None | Some y \<Rightarrow> if y = v then None else Some y)"

text \<open>Division; the only divisor in the checks is \<^verbatim>\<open>nullif(close, 0)\<close>, never zero.\<close>

fun sql_div :: "real option \<Rightarrow> real option \<Rightarrow> real option" where
  "sql_div (Some x) (Some y) = Some (x / y)"
| "sql_div _ _ = None"

definition is_high_less_than_low :: "bar \<Rightarrow> bool" where
  "is_high_less_than_low b \<longleftrightarrow> sql_lt (high b) (low b)"

definition is_open_out_of_range :: "bar \<Rightarrow> bool" where
  "is_open_out_of_range b \<longleftrightarrow> sql_lt (open_col b) (low b) \<or> sql_gt (open_col b) (high b)"

definition is_close_out_of_range :: "bar \<Rightarrow> bool" where
  "is_close_out_of_range b \<longleftrightarrow> sql_lt (close b) (low b) \<or> sql_gt (close b) (high b)"

definition is_zero_range :: "bar \<Rightarrow> bool" where
  "is_zero_range b \<longleftrightarrow> sql_eq (high b) (low b)"

definition is_excessive_spread :: "bar \<Rightarrow> bool" where
  "is_excessive_spread b \<longleftrightarrow>
     sql_gt (sql_div (sql_minus (high b) (low b)) (nullif (close b) 0)) (Some 0.10)"

record ohlc_row =
  ohlc_symbol :: string
  high_less_than_low :: nat
  open_out_of_range :: nat
  close_out_of_range :: nat
  zero_range_bars :: nat
  excessive_spread_bars :: nat

definition ohlc_counts :: "bar list \<Rightarrow> string \<Rightarrow> ohlc_row" where
  "ohlc_counts rows s =
     (let grp = filter (\<lambda>b. canonical_symbol b = s) rows in
      \<lparr>ohlc_symbol = s,
       high_less_than_low = length (filter is_high_less_than_low grp),
       open_out_of_range = length (filter is_open_out_of_range grp),
       close_out_of_range = length (filter is_close_out_of_range grp),
       zero_range_bars = length (filter is_zero_range grp),
       excessive_spread_bars = length (filter is_excessive_spread grp)\<rparr>)"

definition ohlc_having :: "ohlc_row \<Rightarrow> bool" where
  "ohlc_having r \<longleftrightarrow>
     high_less_than_low r > 0 \<or> open_out_of_range r > 0 \<or> close_out_of_range r > 0
     \<or> excessive_spread_bars r > 10"

definition check_enhanced_ohlc_integrity :: "bar list \<Rightarrow> string \<Rightarrow> int \<Rightarrow> ohlc_row list" where
  "check_enhanced_ohlc_integrity tbl tf since =
     (let rows = window_rows tbl tf since in
      filter ohlc_having (map (ohlc_counts rows) (remdups (map canonical_symbol rows))))"

section \<open>Running the catalog\<close>

text \<open>
  A Python call either raises or returns: \<open>exn + 'a\<close>, with \<open>Inl\<close> the exception. A
  DataFrame is the list of its rows. Frames whose columns the runner never reads are lists
  of generic rows.
\<close>

datatype exn = ValueError string | RuntimeError string | DbError string | OSError string

datatype cell = CNull | CInt int | CReal real | CText string

type_synonym row = "(string \<times> cell) list"

text \<open>
  \<^verbatim>\<open>qdf\<close>: the rows of the query, or the empty frame when executing it raises (after a
  rollback).
\<close>

definition qdf :: "exn + 'r list \<Rightarrow> 'r list" where
  "qdf executed = (case executed of Inr rows \<Rightarrow> rows | Inl e \<Rightarrow> [])"

text \<open>
  \<^verbatim>\<open>safe_check\<close> returns what the check returned, or \<^verbatim>\<open>pd.DataFrame()\<close> when the check
  raised. The value is then used as a frame, or unpacked as a pair; unpacking the empty
  frame raises \<^verbatim>\<open>ValueError\<close>.
\<close>

datatype 'a checked = Returned 'a | EmptyDataFrame

definition safe_check :: "exn + 'a \<Rightarrow> 'a checked" where
  "safe_check called = (case called of Inr v \<Rightarrow> Returned v | Inl e \<Rightarrow> EmptyDataFrame)"

fun frame :: "'r list checked \<Rightarrow> 'r list" where
  "frame (Returned df) = df"
| "frame EmptyDataFrame = []"

fun unpack_pair :: "('a \<times> 'b) checked \<Rightarrow> exn + ('a \<times> 'b)" where
  "unpack_pair (Returned p) = Inr p"
| "unpack_pair EmptyDataFrame = Inl (ValueError ''not enough values to unpack (expected 2, got 0)'')"

definition result_flag :: "'r list \<Rightarrow> bool" where
  "result_flag df \<longleftrightarrow> \<not> (df = [])"

definition get_active_assets :: "exn + string list \<Rightarrow> exn + string list" where
  "get_active_assets executed =
     (let df = qdf executed in
      if df = [] then Inl (RuntimeError ''Active assets query returned 0 rows. Check registry table/columns in CONFIG.'')
      else Inr df)"

record align_row =
  align_symbol :: string
  misaligned_count :: int

record coverage_1h_row =
  cov_1h_symbol :: string
  bad_1h_bars :: nat

record staleness_counts =
  warning :: int
  critical :: int

subsection \<open>\<^verbatim>\<open>run_phase_a\<close>\<close>

text \<open>
  What each call made by \<^verbatim>\<open>run_phase_a\<close> does on the connection at hand: the registry
  query of \<^verbatim>\<open>get_active_assets\<close>, then the checks in the order of the source.
\<close>

record phase_a_calls =
  a_registry :: "exn + string list"
  a_staleness :: "exn + (row list \<times> staleness_counts)"
  a_dup_data :: "exn + row list"
  a_dup_derived :: "exn + row list"
  a_align_5m :: "exn + align_row list"
  a_align_1h :: "exn + align_row list"
  a_align_1d :: "exn + align_row list"
  a_agg_cov_5m :: "exn + coverage_row list"
  a_agg_cov_1h :: "exn + coverage_1h_row list"
  a_dxy_counts_1m :: "exn + row list"
  a_dxy_counts_5m :: "exn + row list"
  a_dxy_counts_1h :: "exn + row list"
  a_dxy_counts_1d :: "exn + row list"
  a_monotonic_1m :: "exn + mono_row list"
  a_future_ts_1m :: "exn + row list"
  a_enhanced_ohlc :: "exn + ohlc_row list"
  a_volume_issues :: "exn + row list"
  a_price_jumps :: "exn + row list"
  a_cross_tf_consistency :: "exn + row list"

record phase_a_data =
  da_freshness :: "row list"
  da_duplicates_data_bars :: "row list"
  da_duplicates_derived_bars :: "row list"
  da_alignment_5m :: "align_row list"
  da_alignment_1h :: "align_row list"
  da_alignment_1d :: "align_row list"
  da_agg_coverage_5m_strict :: "coverage_row list"
  da_agg_coverage_1h_strict :: "coverage_1h_row list"
  da_dxy_counts_1m :: "row list"
  da_dxy_counts_5m :: "row list"
  da_dxy_counts_1h :: "row list"
  da_dxy_counts_1d :: "row list"
  da_timestamp_monotonicity :: "mono_row list"
  da_future_timestamps :: "row list"
  da_enhanced_ohlc_integrity :: "ohlc_row list"
  da_volume_integrity :: "row list"
  da_price_continuity :: "row list"
  da_cross_timeframe_consistency :: "row list"

record phase_a_result =
  a_problem_flags :: "(string \<times> bool) list"
  a_staleness_counts :: staleness_counts
  a_data :: phase_a_data

definition run_phase_a :: "phase_a_calls \<Rightarrow> exn + phase_a_result" where
  "run_phase_a c =
     (case get_active_assets (a_registry c) of
        Inl e \<Rightarrow> Inl e
      | Inr active \<Rightarrow>
     (case unpack_pair (safe_check (a_staleness c)) of
        Inl e \<Rightarrow> Inl e
      | Inr (freshness, staleness_counts) \<Rightarrow>
        let dup_data = frame (safe_check (a_dup_data c));
            dup_derived = frame (safe_check (a_dup_derived c));
            align_5m = frame (safe_check (a_align_5m c));
            align_1h = frame (safe_check (a_align_1h c));
            align_1d = frame (safe_check (a_align_1d c));
            agg_cov_5m = frame (safe_check (a_agg_cov_5m c));
            agg_cov_1h = frame (safe_check (a_agg_cov_1h c));
            dxy_counts_1m = frame (safe_check (a_dxy_counts_1m c));
            dxy_counts_5m = frame (safe_check (a_dxy_counts_5m c));
            dxy_counts_1h = frame (safe_check (a_dxy_counts_1h c));
            dxy_counts_1d = frame (safe_check (a_dxy_counts_1d c));
            monotonic_1m = frame (safe_check (a_monotonic_1m c));
            future_ts_1m = frame (safe_check (a_future_ts_1m c));
            enhanced_ohlc = frame (safe_check (a_enhanced_ohlc c));
            volume_issues = frame (safe_check (a_volume_issues c));
            price_jumps = frame (safe_check (a_price_jumps c));
            cross_tf_consistency = frame (safe_check (a_cross_tf_consistency c));
            problems =
              [(''duplicates_data_bars_1m'', result_flag dup_data),
               (''duplicates_derived'', result_flag dup_derived),
               (''misaligned_5m'', \<not> (align_5m = []) \<and> list_ex (\<lambda>r. misaligned_count r > 0) align_5m),
               (''misaligned_1h'', \<not> (align_1h = []) \<and> list_ex (\<lambda>r. misaligned_count r > 0) align_1h),
               (''misaligned_1d'', \<not> (align_1d = []) \<and> list_ex (\<lambda>r. misaligned_count r > 0) align_1d),
               (''bad_5m_coverage_strict'', \<not> (agg_cov_5m = []) \<and> list_ex (\<lambda>r. bad_5m_bars r > 0) agg_cov_5m),
               (''bad_1h_coverage_strict'', \<not> (agg_cov_1h = []) \<and> list_ex (\<lambda>r. bad_1h_bars r > 0) agg_cov_1h),
               (''dxy_missing_data'', dxy_counts_1m = [] \<or> dxy_counts_5m = [] \<or> dxy_counts_1h = [] \<or> dxy_counts_1d = []),
               (''non_monotonic_timestamps'', result_flag monotonic_1m),
               (''future_timestamps'', result_flag future_ts_1m),
               (''enhanced_ohlc_issues'', result_flag enhanced_ohlc),
               (''volume_issues'', result_flag volume_issues),
               (''large_price_jumps'', result_flag price_jumps),
               (''cross_timeframe_mismatch'', result_flag cross_tf_consistency),
               (''staleness_warning'', warning staleness_counts > 0),
               (''staleness_critical'', critical staleness_counts > 0)]
        in Inr \<lparr>a_problem_flags = problems,
                a_staleness_counts = staleness_counts,
                a_data = \<lparr>da_freshness = freshness,
                          da_duplicates_data_bars = dup_data,
                          da_duplicates_derived_bars = dup_derived,
                          da_alignment_5m = align_5m,
                          da_alignment_1h = align_1h,
                          da_alignment_1d = align_1d,
                          da_agg_coverage_5m_strict = agg_cov_5m,
                          da_agg_coverage_1h_strict = agg_cov_1h,
                          da_dxy_counts_1m = dxy_counts_1m,
                          da_dxy_counts_5m = dxy_counts_5m,
                          da_dxy_counts_1h = dxy_counts_1h,
                          da_dxy_counts_1d = dxy_counts_1d,
                          da_timestamp_monotonicity = monotonic_1m,
                          da_future_timestamps = future_ts_1m,
                          da_enhanced_ohlc_integrity = enhanced_ohlc,
                          da_volume_integrity = volume_issues,
                          da_price_continuity = price_jumps,
                          da_cross_timeframe_consistency = cross_tf_consistency\<rparr>\<rparr>))"

text \<open>
  The coverage call as \<^verbatim>\<open>run_phase_a\<close> makes it, \<^verbatim>\<open>min_required_1m=3, strict=False\<close>, when
  the query executes. Its frame feeds the flag \<^verbatim>\<open>bad_5m_coverage_strict\<close>.
\<close>

definition phase_a_agg_cov_5m :: "bar list \<Rightarrow> int \<Rightarrow> exn + coverage_row list" where
  "phase_a_agg_cov_5m data_bars since =
     Inr (check_agg_consistency_1m_to_5m_coverage data_bars since 3 False)"

subsection \<open>The checks of \<^verbatim>\<open>run_phase_a\<close> on one connection\<close>

text \<open>
  All checks of a run share one connection, never committed and not in autocommit mode.
  A statement that fails leaves its transaction aborted: until a rollback, the server
  refuses every further statement. \<open>Rows\<close> and \<open>SqlError\<close> are what the database answers to
  a statement executed in a transaction that is not aborted. \<^verbatim>\<open>conn.rollback()\<close> is taken to
  succeed (the connection is alive).
\<close>

datatype txn = Ready | Aborted

datatype 'r answer = Rows "'r list" | SqlError string

fun execute :: "txn \<Rightarrow> 'r answer \<Rightarrow> txn \<times> (exn + 'r list)" where
  "execute Aborted ans =
     (Aborted, Inl (DbError ''current transaction is aborted, commands ignored until end of transaction block''))"
| "execute Ready (Rows rows) = (Ready, Inr rows)"
| "execute Ready (SqlError msg) = (Aborted, Inl (DbError msg))"

definition rollback :: "txn \<Rightarrow> txn" where
  "rollback st = Ready"

text \<open>\<^verbatim>\<open>qdf\<close> with the connection: it rolls back when executing the query raised.\<close>

definition qdf_conn :: "txn \<Rightarrow> 'r answer \<Rightarrow> txn \<times> 'r list" where
  "qdf_conn st ans =
     (case execute st ans of
        (st', executed) \<Rightarrow>
          ((case executed of Inl e \<Rightarrow> rollback st' | Inr rows \<Rightarrow> st'), qdf executed))"

text \<open>
  A check whose body is \<^verbatim>\<open>return qdf(conn, sql)\<close>: \<^verbatim>\<open>check_duplicates\<close>,
  \<^verbatim>\<open>check_alignment\<close>, the two coverage checks, \<^verbatim>\<open>check_counts\<close> (called with \<^verbatim>\<open>days\<close>),
  \<^verbatim>\<open>check_timestamp_monotonicity\<close>, \<^verbatim>\<open>check_future_timestamps\<close>,
  \<^verbatim>\<open>check_enhanced_ohlc_integrity\<close>, \<^verbatim>\<open>check_price_continuity\<close> and
  \<^verbatim>\<open>check_cross_timeframe_consistency\<close>.
\<close>

definition check_by_qdf :: "txn \<Rightarrow> 'r answer \<Rightarrow> txn \<times> (exn + 'r list)" where
  "check_by_qdf st ans = (case qdf_conn st ans of (st', df) \<Rightarrow> (st', Inr df))"

text \<open>
  \<^verbatim>\<open>check_volume_integrity\<close> first probes the volume column with a statement of its own,
  outside \<^verbatim>\<open>qdf\<close>; when the probe raises \<^verbatim>\<open>psycopg2.Error\<close> it returns the empty frame, with
  no rollback.
\<close>

definition check_volume_integrity ::
  "txn \<Rightarrow> row answer \<Rightarrow> row answer \<Rightarrow> txn \<times> (exn + row list)" where
  "check_volume_integrity st probe query =
     (case execute st probe of
        (st', Inl e) \<Rightarrow> (case e of DbError msg \<Rightarrow> (st', Inr []) | _ \<Rightarrow> (st', Inl e))
      | (st', Inr rows) \<Rightarrow> check_by_qdf st' query)"

text \<open>
  \<^verbatim>\<open>check_staleness_with_thresholds\<close>: the frame of its query and the numbers of rows whose
  \<^verbatim>\<open>staleness_minutes\<close>, a number or NULL, is above the two thresholds of the configuration
  (5 and 15 by default); a NULL is above nothing.
\<close>

definition exceeds :: "int \<Rightarrow> row \<Rightarrow> bool" where
  "exceeds threshold r =
     (case map_of r ''staleness_minutes'' of
        Some (CReal x) \<Rightarrow> x > real_of_int threshold
      | Some (CInt i) \<Rightarrow> i > threshold
      | _ \<Rightarrow> False)"

definition check_staleness_with_thresholds ::
  "int \<Rightarrow> int \<Rightarrow> txn \<Rightarrow> row answer \<Rightarrow> txn \<times> (exn + (row list \<times> staleness_counts))" where
  "check_staleness_with_thresholds staleness_warning_minutes staleness_critical_minutes st ans =
     (case qdf_conn st ans of
        (st', df) \<Rightarrow>
          let counts =
                (if \<not> (df = []) \<and> list_ex (\<lambda>r. ''staleness_minutes'' \<in> set (map fst r)) df
                 then \<lparr>warning = int (length (filter (exceeds staleness_warning_minutes) df)),
                       critical = int (length (filter (exceeds staleness_critical_minutes) df))\<rparr>
                 else \<lparr>warning = 0, critical = 0\<rparr>)
          in (st', Inr (df, counts)))"

text \<open>
  The state of the connection after \<^verbatim>\<open>safe_check\<close> has run a check: rolled back when the
  check raised.
\<close>

definition after_safe_check :: "txn \<times> (exn + 'a) \<Rightarrow> txn" where
  "after_safe_check called = (case called of (st', Inl e) \<Rightarrow> rollback st' | (st', Inr v) \<Rightarrow> st')"

text \<open>The answers of the database to the statements of Phase A, in the order of the source.\<close>

record phase_a_answers =
  q_registry :: "string answer"
  q_staleness :: "row answer"
  q_dup_data :: "row answer"
  q_dup_derived :: "row answer"
  q_align_5m :: "align_row answer"
  q_align_1h :: "align_row answer"
  q_align_1d :: "align_row answer"
  q_agg_cov_5m :: "coverage_row answer"
  q_agg_cov_1h :: "coverage_1h_row answer"
  q_dxy_counts_1m :: "row answer"
  q_dxy_counts_5m :: "row answer"
  q_dxy_counts_1h :: "row answer"
  q_dxy_counts_1d :: "row answer"
  q_monotonic_1m :: "mono_row answer"
  q_future_ts_1m :: "row answer"
  q_enhanced_ohlc :: "ohlc_row answer"
  q_volume_probe :: "row answer"
  q_volume_issues :: "row answer"
  q_price_jumps :: "row answer"
  q_cross_tf_consistency :: "row answer"

text \<open>
  What the calls of \<^verbatim>\<open>run_phase_a\<close> do on a fresh connection to a database with these
  answers: each call starts in the state the call before it, and \<^verbatim>\<open>safe_check\<close> around it,
  left the connection in.
\<close>

definition phase_a_calls_on :: "int \<Rightarrow> int \<Rightarrow> phase_a_answers \<Rightarrow> phase_a_calls" where
  "phase_a_calls_on staleness_warning_minutes staleness_critical_minutes q =
     (let registry = execute Ready (q_registry q);
          st = fst (qdf_conn Ready (q_registry q));
          staleness = check_staleness_with_thresholds staleness_warning_minutes
                        staleness_critical_minutes st (q_staleness q);
          st = after_safe_check staleness;
          dup_data = check_by_qdf st (q_dup_data q);
          st = after_safe_check dup_data;
          dup_derived = check_by_qdf st (q_dup_derived q);
          st = after_safe_check dup_derived;
          align_5m = check_by_qdf st (q_align_5m q);
          st = after_safe_check align_5m;
          align_1h = check_by_qdf st (q_align_1h q);
          st = after_safe_check align_1h;
          align_1d = check_by_qdf st (q_align_1d q);
          st = after_safe_check align_1d;
          agg_cov_5m = check_by_qdf st (q_agg_cov_5m q);
          st = after_safe_check agg_cov_5m;
          agg_cov_1h = check_by_qdf st (q_agg_cov_1h q);
          st = after_safe_check agg_cov_1h;
          dxy_counts_1m = check_by_qdf st (q_dxy_counts_1m q);
          st = after_safe_check dxy_counts_1m;
          dxy_counts_5m = check_by_qdf st (q_dxy_counts_5m q);
          st = after_safe_check dxy_counts_5m;
          dxy_counts_1h = check_by_qdf st (q_dxy_counts_1h q);
          st = after_safe_check dxy_counts_1h;
          dxy_counts_1d = check_by_qdf st (q_dxy_counts_1d q);
          st = after_safe_check dxy_counts_1d;
          monotonic_1m = check_by_qdf st (q_monotonic_1m q);
          st = after_safe_check monotonic_1m;
          future_ts_1m = check_by_qdf st (q_future_ts_1m q);
          st = after_safe_check future_ts_1m;
          enhanced_ohlc = check_by_qdf st (q_enhanced_ohlc q);
          st = after_safe_check enhanced_ohlc;
          volume_issues = check_volume_integrity st (q_volume_probe q) (q_volume_issues q);
          st = after_safe_check volume_issues;
          price_jumps = check_by_qdf st (q_price_jumps q);
          st = after_safe_check price_jumps;
          cross_tf_consistency = check_by_qdf st (q_cross_tf_consistency q)
      in \<lparr>a_registry = snd registry,
          a_staleness = snd staleness,
          a_dup_data = snd dup_data,
          a_dup_derived = snd dup_derived,
          a_align_5m = snd align_5m,
          a_align_1h = snd align_1h,
          a_align_1d = snd align_1d,
          a_agg_cov_5m = snd agg_cov_5m,
          a_agg_cov_1h = snd agg_cov_1h,
          a_dxy_counts_1m = snd dxy_counts_1m,
          a_dxy_counts_5m = snd dxy_counts_5m,
          a_dxy_counts_1h = snd dxy_counts_1h,
          a_dxy_counts_1d = snd dxy_counts_1d,
          a_monotonic_1m = snd monotonic_1m,
          a_future_ts_1m = snd future_ts_1m,
          a_enhanced_ohlc = snd enhanced_ohlc,
          a_volume_issues = snd volume_issues,
          a_price_jumps = snd price_jumps,
          a_cross_tf_consistency = snd cross_tf_consistency\<rparr>)"

subsection \<open>\<^verbatim>\<open>run_phase_b\<close>\<close>

record coverage_check_row =
  earliest_ts :: "int option"
  required_min_ts :: int
  sufficient_coverage :: "bool option"

record dependency_row =
  dxy_minutes_with_missing_or_invalid_components :: int
  dxy_total_minutes_checked :: int

definition grace_days :: int where
  "grace_days = 7"

definition usec_per_day :: int where
  "usec_per_day = 86400000000"

text \<open>\<^verbatim>\<open>min(ts_utc)\<close> over the 1-minute rows; NULL on no row.\<close>

definition min_ts_1m :: "bar list \<Rightarrow> int option" where
  "min_ts_1m data_bars =
     (case map ts_utc (filter (\<lambda>b. timeframe b = ''1m'') data_bars) of
        [] \<Rightarrow> None
      | t # ts \<Rightarrow> Some (fold min ts t))"

text \<open>
  The coverage query. \<open>hist_start\<close> is \<^verbatim>\<open>(now() at time zone 'utc') - interval
  '{hist_years} years'\<close> as the database computes it. An aggregate without GROUP BY returns
  one row.
\<close>

definition coverage_check_sql :: "bar list \<Rightarrow> int \<Rightarrow> coverage_check_row list" where
  "coverage_check_sql data_bars hist_start =
     (let required = hist_start + grace_days * usec_per_day;
          earliest = min_ts_1m data_bars
      in [\<lparr>earliest_ts = earliest,
           required_min_ts = required,
           sufficient_coverage = map_option (\<lambda>t. t \<le> required) earliest\<rparr>])"

text \<open>Python's \<^verbatim>\<open>not x\<close> on a nullable boolean: \<^verbatim>\<open>not None\<close> is true.\<close>

definition py_not :: "bool option \<Rightarrow> bool" where
  "py_not x = (case x of None \<Rightarrow> True | Some v \<Rightarrow> \<not> v)"

record phase_b_calls =
  b_registry :: "exn + string list"
  b_coverage_check :: "exn + coverage_check_row list"
  b_integrity_1m :: "exn + row list"
  b_counts_1m :: "exn + row list"
  b_gap_density_1m :: "exn + gap_row list"
  b_enhanced_ohlc_hist :: "exn + ohlc_row list"
  b_volume_issues_hist :: "exn + row list"
  b_dxy_counts_1m :: "exn + row list"
  b_dxy_counts_5m :: "exn + row list"
  b_dxy_counts_1h :: "exn + row list"
  b_dxy_component_dependency :: "exn + dependency_row list"
  b_dxy_align_5m :: "exn + align_row list"
  b_dxy_align_1h :: "exn + align_row list"

record phase_b_data =
  db_coverage_check :: "coverage_check_row list"
  db_integrity_1m :: "row list"
  db_counts_1m :: "row list"
  db_gap_density_1m :: "gap_row list"
  db_enhanced_ohlc_integrity :: "ohlc_row list"
  db_volume_integrity :: "row list"
  db_dxy_counts_1m :: "row list"
  db_dxy_counts_5m :: "row list"
  db_dxy_counts_1h :: "row list"
  db_dxy_component_dependency :: "dependency_row list"
  db_dxy_alignment_5m :: "align_row list"
  db_dxy_alignment_1h :: "align_row list"

record phase_b_result =
  coverage_guardrail_passed :: bool
  b_problem_flags :: "(string \<times> bool) list"
  b_data :: phase_b_data

text \<open>\<^verbatim>\<open>df[df["canonical_symbol"] == CFG.dxy_symbol] if not df.empty else df\<close>.\<close>

definition only_dxy :: "align_row list \<Rightarrow> align_row list" where
  "only_dxy df = (if \<not> (df = []) then filter (\<lambda>r. align_symbol r = ''DXY'') df else df)"

text \<open>\<^verbatim>\<open>not df.empty and int(df.iloc[0][col]) > 0\<close>.\<close>

definition first_positive :: "('r \<Rightarrow> int) \<Rightarrow> 'r list \<Rightarrow> bool" where
  "first_positive col df = (case df of [] \<Rightarrow> False | r # _ \<Rightarrow> col r > 0)"

definition run_phase_b :: "phase_b_calls \<Rightarrow> exn + phase_b_result" where
  "run_phase_b c =
     (case get_active_assets (b_registry c) of
        Inl e \<Rightarrow> Inl e
      | Inr active \<Rightarrow>
        let coverage_check = frame (safe_check (Inr (qdf (b_coverage_check c))));
            coverage_guardrail_passed =
              (case coverage_check of
                 [] \<Rightarrow> False
               | r # _ \<Rightarrow> if py_not (sufficient_coverage r) then False else True);
            integrity_1m = frame (safe_check (b_integrity_1m c));
            counts_1m = frame (safe_check (b_counts_1m c));
            gap_density_1m = frame (safe_check (b_gap_density_1m c));
            enhanced_ohlc_hist = frame (safe_check (b_enhanced_ohlc_hist c));
            volume_issues_hist = frame (safe_check (b_volume_issues_hist c));
            dxy_counts_1m = frame (safe_check (b_dxy_counts_1m c));
            dxy_counts_5m = frame (safe_check (b_dxy_counts_5m c));
            dxy_counts_1h = frame (safe_check (b_dxy_counts_1h c));
            dxy_component_dependency = frame (safe_check (b_dxy_component_dependency c));
            dxy_align_5m = only_dxy (frame (safe_check (b_dxy_align_5m c)));
            dxy_align_1h = only_dxy (frame (safe_check (b_dxy_align_1h c)));
            problems =
              [(''insufficient_historical_coverage'', \<not> coverage_guardrail_passed),
               (''integrity_issues_1m'', result_flag integrity_1m),
               (''enhanced_ohlc_issues'', result_flag enhanced_ohlc_hist),
               (''volume_issues'', result_flag volume_issues_hist),
               (''dxy_component_dependency_fail'',
                  first_positive dxy_minutes_with_missing_or_invalid_components dxy_component_dependency),
               (''dxy_missing_5m_or_1h'', dxy_counts_5m = [] \<or> dxy_counts_1h = []),
               (''dxy_misaligned_5m'', first_positive misaligned_count dxy_align_5m),
               (''dxy_misaligned_1h'', first_positive misaligned_count dxy_align_1h)]
        in Inr \<lparr>coverage_guardrail_passed = coverage_guardrail_passed,
                b_problem_flags = problems,
                b_data = \<lparr>db_coverage_check = coverage_check,
                          db_integrity_1m = integrity_1m,
                          db_counts_1m = counts_1m,
                          db_gap_density_1m = gap_density_1m,
                          db_enhanced_ohlc_integrity = enhanced_ohlc_hist,
                          db_volume_integrity = volume_issues_hist,
                          db_dxy_counts_1m = dxy_counts_1m,
                          db_dxy_counts_5m = dxy_counts_5m,
                          db_dxy_counts_1h = dxy_counts_1h,
                          db_dxy_component_dependency = dxy_component_dependency,
                          db_dxy_alignment_5m = dxy_align_5m,
                          db_dxy_alignment_1h = dxy_align_1h\<rparr>\<rparr>)"

subsection \<open>\<^verbatim>\<open>run_expected_actual_tables\<close>\<close>

record expected_actual_calls =
  e_ingestion :: "exn + row list"
  e_aggregation :: "exn + row list"

record expected_actual_result =
  ingestion_data :: "row list"
  aggregation_data :: "row list"

definition run_expected_actual_tables :: "expected_actual_calls \<Rightarrow> expected_actual_result" where
  "run_expected_actual_tables c =
     (let ingestion_df = frame (safe_check (e_ingestion c));
          aggregation_df = frame (safe_check (e_aggregation c))
      in \<lparr>ingestion_data = ingestion_df, aggregation_data = aggregation_df\<rparr>)"

subsection \<open>\<^verbatim>\<open>main\<close>\<close>

datatype phase_arg = PhaseA | PhaseB | PhaseALL

text \<open>
  What the operating system and the network do for \<^verbatim>\<open>main\<close>: \<^verbatim>\<open>get_conn()\<close>, creating the
  output directory, and writing the JSON and text reports.
\<close>

record main_io =
  io_connect :: "exn + unit"
  io_mkdir :: "exn + unit"
  io_write_reports :: "exn + unit"

text \<open>
  The loop over \<^verbatim>\<open>results\<close>. An entry is \<open>Some\<close> of its \<^verbatim>\<open>problem_flags\<close>, or \<open>None\<close> when
  it has no such key, as \<^verbatim>\<open>expected_vs_actual\<close> and \<^verbatim>\<open>run_metadata\<close>.
\<close>

definition all_ok :: "(string \<times> (string \<times> bool) list option) list \<Rightarrow> bool" where
  "all_ok results =
     fold (\<lambda>(phase_key, phase_result) ok.
             case phase_result of
               None \<Rightarrow> ok
             | Some problem_flags \<Rightarrow>
                 let problems = filter (\<lambda>(k, v). v) problem_flags in
                 if \<not> (problems = []) then False else ok)
          results True"

text \<open>
  The exit status of the process once its command line has been parsed (\<^verbatim>\<open>argparse\<close>
  exits with 2 on a bad one). A failed connection exits with 1; an exception raised
  by a phase, by creating the directory or by writing the reports is caught by the handler
  around all of them, which exits with 1; \<^verbatim>\<open>sys.exit(1)\<close> of the loop is not an
  \<^verbatim>\<open>Exception\<close> and passes the handler.
\<close>

definition main ::
  "phase_arg \<Rightarrow> main_io \<Rightarrow> phase_a_calls \<Rightarrow> phase_b_calls \<Rightarrow> expected_actual_calls \<Rightarrow> nat" where
  "main phase io ca cb ce =
     (case io_connect io of
        Inl e \<Rightarrow> 1
      | Inr conn \<Rightarrow>
     (case (if phase = PhaseA \<or> phase = PhaseALL
            then map_sum id (\<lambda>r. [(''phase_a'', Some (a_problem_flags r))]) (run_phase_a ca)
            else Inr []) of
        Inl e \<Rightarrow> 1
      | Inr results_a \<Rightarrow>
     (case (if phase = PhaseB \<or> phase = PhaseALL
            then map_sum id (\<lambda>r. [(''phase_b'', Some (b_problem_flags r))]) (run_phase_b cb)
            else Inr []) of
        Inl e \<Rightarrow> 1
      | Inr results_b \<Rightarrow>
        let expected_vs_actual = run_expected_actual_tables ce;
            results = results_a @ results_b @ [(''expected_vs_actual'', None)]
        in
     (case io_mkdir io of
        Inl e \<Rightarrow> 1
      | Inr made \<Rightarrow>
        let results = results @ [(''run_metadata'', None)] in
     (case io_write_reports io of
        Inl e \<Rightarrow> 1
      | Inr written \<Rightarrow>
        if all_ok results then 0 else 1)))))"

section \<open>Notions used to state the properties\<close>

text \<open>
  The pivot of one timestamp over the whole table, without the range bounds.
\<close>

definition component_rows_at :: "bar list \<Rightarrow> int \<Rightarrow> bar list" where
  "component_rows_at data_bars ts =
     filter (\<lambda>b. canonical_symbol b \<in> set dxy_components \<and> timeframe b = ''1m'' \<and> ts_utc b = ts)
            data_bars"

definition fx_at :: "bar list \<Rightarrow> int \<Rightarrow> fx_row" where
  "fx_at data_bars ts =
     (let grp = component_rows_at data_bars ts in
      \<lparr>fx_ts = ts,
       eurusd = pivot ''EURUSD'' grp, usdjpy = pivot ''USDJPY'' grp,
       gbpusd = pivot ''GBPUSD'' grp, usdcad = pivot ''USDCAD'' grp,
       usdsek = pivot ''USDSEK'' grp, usdchf = pivot ''USDCHF'' grp\<rparr>)"

text \<open>Component \<open>s\<close> has a 1-minute bar at \<open>ts\<close> with a close above zero.\<close>

definition component_valid :: "bar list \<Rightarrow> int \<Rightarrow> string \<Rightarrow> bool" where
  "component_valid data_bars ts s \<longleftrightarrow>
     (\<exists>b \<in> set data_bars. canonical_symbol b = s \<and> timeframe b = ''1m'' \<and> ts_utc b = ts
        \<and> (\<exists>c. close b = Some c \<and> 0 < c))"

definition all_components_valid :: "bar list \<Rightarrow> int \<Rightarrow> bool" where
  "all_components_valid data_bars ts \<longleftrightarrow>
     (\<forall>s \<in> set dxy_components. component_valid data_bars ts s)"

definition some_component_bar :: "bar list \<Rightarrow> int \<Rightarrow> bool" where
  "some_component_bar data_bars ts \<longleftrightarrow>
     (\<exists>b \<in> set data_bars. canonical_symbol b \<in> set dxy_components \<and> timeframe b = ''1m''
        \<and> ts_utc b = ts)"

text \<open>The key of the index bar of a timestamp.\<close>

definition dxy_key :: "int \<Rightarrow> string \<times> string \<times> int" where
  "dxy_key ts = (''DXY'', ''1m'', ts)"

text \<open>No valid timestamp of the range has a price that overflows the cast.\<close>

definition no_overflow :: "pg_math \<Rightarrow> bar list \<Rightarrow> int \<Rightarrow> int \<Rightarrow> bool" where
  "no_overflow pg data_bars f t \<longleftrightarrow>
     (\<forall>ts. f \<le> ts \<and> ts < t \<and> all_components_valid data_bars ts
        \<longrightarrow> dxy_price pg (fx_at data_bars ts) \<noteq> None)"

text \<open>The valid timestamps of the range, split on whether the index key is stored already.\<close>

definition valid_ts_where ::
    "bar list \<Rightarrow> int \<Rightarrow> int \<Rightarrow> (string \<times> string \<times> int \<Rightarrow> bool) \<Rightarrow> int set" where
  "valid_ts_where data_bars f t P =
     {ts. f \<le> ts \<and> ts < t \<and> all_components_valid data_bars ts \<and> P (dxy_key ts)}"

text \<open>The rows the INSERT of a call proposes.\<close>

definition dxy_rows ::
    "pg_math \<Rightarrow> bar list \<Rightarrow> int \<Rightarrow> int \<Rightarrow> int \<Rightarrow> int \<Rightarrow> bar list" where
  "dxy_rows pg data_bars f t v now = map (dxy_row v now) (dxy_bars pg data_bars f t)"

text \<open>
  The exponents of \<open>dxy_formula\<close> as a weight table, in the order of \<open>dxy_components\<close>, and
  its base constant.
\<close>

definition dxy_base :: real where
  "dxy_base = 50.14348112"

definition dxy_weights :: "(string \<times> real) list" where
  "dxy_weights =
     [(''EURUSD'', -0.576), (''USDJPY'', 0.136), (''GBPUSD'', -0.119),
      (''USDCAD'', 0.091), (''USDSEK'', 0.042), (''USDCHF'', 0.036)]"

definition component_close :: "fx_row \<Rightarrow> string \<Rightarrow> real" where
  "component_close r s =
     the (if s = ''EURUSD'' then eurusd r else if s = ''USDJPY'' then usdjpy r
          else if s = ''GBPUSD'' then gbpusd r else if s = ''USDCAD'' then usdcad r
          else if s = ''USDSEK'' then usdsek r else usdchf r)"

section \<open>Example tables\<close>

definition example_bar :: "string \<Rightarrow> string \<Rightarrow> int \<Rightarrow> real \<Rightarrow> bar" where
  "example_bar s tf ts px =
     \<lparr>canonical_symbol = s, timeframe = tf, ts_utc = ts,
      open_col = Some px, high = Some px, low = Some px, close = Some px,
      vol = Some 5, vwap = None, trade_count = None, is_partial = False,
      source = ''ingest'', ingested_at = 0, raw = JNull\<rparr>"

text \<open>All six components at timestamp 0 with close 1.\<close>

definition example_components :: "bar list" where
  "example_components = map (\<lambda>s. example_bar s ''1m'' 0 1) dxy_components"

text \<open>The six components at timestamp 0 with market quotes.\<close>

definition example_quotes :: "bar list" where
  "example_quotes =
     [example_bar ''EURUSD'' ''1m'' 0 1.08, example_bar ''USDJPY'' ''1m'' 0 150,
      example_bar ''GBPUSD'' ''1m'' 0 1.27, example_bar ''USDCAD'' ''1m'' 0 1.36,
      example_bar ''USDSEK'' ''1m'' 0 10.5, example_bar ''USDCHF'' ''1m'' 0 0.88]"

text \<open>
  All six components with close 1 at timestamp 0, and again one minute later with a close
  of EURUSD so small that the price there exceeds twelve integer digits.
\<close>

definition example_overflow :: "bar list" where
  "example_overflow =
     example_components
     @ [example_bar ''EURUSD'' ''1m'' 60000000 (1 / 10 ^ 30), example_bar ''USDJPY'' ''1m'' 60000000 1,
        example_bar ''GBPUSD'' ''1m'' 60000000 1, example_bar ''USDCAD'' ''1m'' 60000000 1,
        example_bar ''USDSEK'' ''1m'' 60000000 1, example_bar ''USDCHF'' ''1m'' 60000000 1]"

text \<open>
  The same, and one minute later a bar of EURUSD alone.
\<close>

definition example_partial :: "bar list" where
  "example_partial = example_components @ [example_bar ''EURUSD'' ''1m'' 60000000 1]"

text \<open>
  The six components at timestamp 0 and an index bar already stored there by another
  writer, with volume 5.
\<close>

definition example_with_dxy :: "bar list" where
  "example_with_dxy = example_components @ [example_bar ''DXY'' ''1m'' 0 7]"

text \<open>Three 1-minute bars of one symbol in the 5-minute bucket starting at 0.\<close>

definition example_three_of_five :: "bar list" where
  "example_three_of_five =
     [example_bar ''X'' ''1m'' 0 1, example_bar ''X'' ''1m'' 60000000 1,
      example_bar ''X'' ''1m'' 120000000 1]"

text \<open>A bar stored after a later one, and a table with one timestamp twice.\<close>

definition example_out_of_order :: "bar list" where
  "example_out_of_order = [example_bar ''X'' ''1m'' 60000000 1, example_bar ''X'' ''1m'' 0 1]"

definition example_same_ts :: "bar list" where
  "example_same_ts = [example_bar ''X'' ''1m'' 60000000 1, example_bar ''X'' ''1m'' 60000000 2]"

text \<open>Two consecutive 5-minute bars.\<close>

definition example_5m_series :: "bar list" where
  "example_5m_series = [example_bar ''X'' ''5m'' 0 1, example_bar ''X'' ''5m'' 300000000 1]"

text \<open>The child bars of one 5-minute bucket of one symbol, inside the window.\<close>

definition children_5m :: "bar list \<Rightarrow> int \<Rightarrow> string \<Rightarrow> int \<Rightarrow> bar list" where
  "children_5m data_bars since s k =
     filter (\<lambda>b. timeframe b = ''1m'' \<and> since \<le> ts_utc b \<and> canonical_symbol b = s
                 \<and> bar_5m_ts (ts_utc b) = k) data_bars"

text \<open>The timestamps of one symbol inside the window of a check, as stored.\<close>

definition series_ts :: "bar list \<Rightarrow> string \<Rightarrow> int \<Rightarrow> string \<Rightarrow> int list" where
  "series_ts tbl tf since s =
     map ts_utc (filter (\<lambda>b. canonical_symbol b = s) (window_rows tbl tf since))"

section \<open>Example runs\<close>

text \<open>
  A Phase A run on a clean store: every check returns, the four DXY count frames have a
  row, the other frames are empty.
\<close>

definition dxy_count_row :: row where
  "dxy_count_row = [(''canonical_symbol'', CText ''DXY''), (''bars'', CInt 1)]"

definition one_row :: "row list" where
  "one_row = [dxy_count_row]"

definition clean_a :: phase_a_calls where
  "clean_a =
     \<lparr>a_registry = Inr [''DXY''],
      a_staleness = Inr ([], \<lparr>warning = 0, critical = 0\<rparr>),
      a_dup_data = Inr [], a_dup_derived = Inr [],
      a_align_5m = Inr [], a_align_1h = Inr [], a_align_1d = Inr [],
      a_agg_cov_5m = Inr [], a_agg_cov_1h = Inr [],
      a_dxy_counts_1m = Inr one_row, a_dxy_counts_5m = Inr one_row,
      a_dxy_counts_1h = Inr one_row, a_dxy_counts_1d = Inr one_row,
      a_monotonic_1m = Inr [], a_future_ts_1m = Inr [], a_enhanced_ohlc = Inr [],
      a_volume_issues = Inr [], a_price_jumps = Inr [], a_cross_tf_consistency = Inr []\<rparr>"

text \<open>The same run with every check returning the empty frame.\<close>

definition all_empty_a :: phase_a_calls where
  "all_empty_a =
     clean_a\<lparr>a_dxy_counts_1m := Inr [], a_dxy_counts_5m := Inr [],
             a_dxy_counts_1h := Inr [], a_dxy_counts_1d := Inr []\<rparr>"

text \<open>
  A Phase B run on a clean store whose history is long enough; the gap density frame has
  a row for a symbol with a gap.
\<close>

definition clean_b :: phase_b_calls where
  "clean_b =
     \<lparr>b_registry = Inr [''DXY''],
      b_coverage_check = Inr [\<lparr>earliest_ts = Some 0, required_min_ts = 1,
                               sufficient_coverage = Some True\<rparr>],
      b_integrity_1m = Inr [], b_counts_1m = Inr one_row,
      b_gap_density_1m = Inr [\<lparr>gap_symbol = ''X'', gap_events = 1, max_gap = 2 * usec_per_minute\<rparr>],
      b_enhanced_ohlc_hist = Inr [], b_volume_issues_hist = Inr [],
      b_dxy_counts_1m = Inr one_row, b_dxy_counts_5m = Inr one_row, b_dxy_counts_1h = Inr one_row,
      b_dxy_component_dependency = Inr [\<lparr>dxy_minutes_with_missing_or_invalid_components = 0,
                                        dxy_total_minutes_checked = 1\<rparr>],
      b_dxy_align_5m = Inr [], b_dxy_align_1h = Inr []\<rparr>"

text \<open>A Phase A run with two findings: a duplicated key and misaligned 5-minute bars.\<close>

definition dup_row :: row where
  "dup_row = [(''canonical_symbol'', CText ''EURUSD''), (''timeframe'', CText ''1m''),
              (''ts_utc'', CInt 0), (''rows_at_key'', CInt 2)]"

definition finding_a :: phase_a_calls where
  "finding_a =
     clean_a\<lparr>a_dup_data := Inr [dup_row],
             a_align_5m := Inr [\<lparr>align_symbol = ''EURUSD'', misaligned_count = 2\<rparr>]\<rparr>"

text \<open>The expected-versus-actual tables, and a run in which every file operation succeeds.\<close>

definition clean_e :: expected_actual_calls where
  "clean_e = \<lparr>e_ingestion = Inr [], e_aggregation = Inr []\<rparr>"

definition io_ok :: main_io where
  "io_ok = \<lparr>io_connect = Inr (), io_mkdir = Inr (), io_write_reports = Inr ()\<rparr>"

text \<open>
  A database that answers every statement of Phase A, with fresh bars for both active
  symbols, one symbol whose price jumped by half between two bars and no other finding; and the same database whose bars table
  has no column named \<^verbatim>\<open>volume\<close> (the table the index function writes names it \<^verbatim>\<open>vol\<close>).
\<close>

definition staleness_row :: "string \<Rightarrow> cell \<Rightarrow> row" where
  "staleness_row s minutes = [(''canonical_symbol'', CText s), (''staleness_minutes'', minutes)]"

definition jump_row :: row where
  "jump_row = [(''canonical_symbol'', CText ''EURUSD''), (''large_jump_count'', CInt 1),
               (''max_price_jump_pct'', CReal 0.5)]"

definition jump_answers :: phase_a_answers where
  "jump_answers =
     \<lparr>q_registry = Rows [''DXY'', ''EURUSD''],
      q_staleness = Rows [staleness_row ''DXY'' (CReal 2), staleness_row ''EURUSD'' (CReal 3.5)],
      q_dup_data = Rows [], q_dup_derived = Rows [],
      q_align_5m = Rows [], q_align_1h = Rows [], q_align_1d = Rows [],
      q_agg_cov_5m = Rows [], q_agg_cov_1h = Rows [],
      q_dxy_counts_1m = Rows one_row, q_dxy_counts_5m = Rows one_row,
      q_dxy_counts_1h = Rows one_row, q_dxy_counts_1d = Rows one_row,
      q_monotonic_1m = Rows [], q_future_ts_1m = Rows [], q_enhanced_ohlc = Rows [],
      q_volume_probe = Rows [], q_volume_issues = Rows [],
      q_price_jumps = Rows [jump_row],
      q_cross_tf_consistency = Rows []\<rparr>"

definition no_volume_column :: phase_a_answers where
  "no_volume_column = jump_answers\<lparr>q_volume_probe := SqlError ''column volume does not exist''\<rparr>"

text \<open>The flag of a name in a problem-flag mapping.\<close>

definition flag_of :: "(string \<times> bool) list \<Rightarrow> string \<Rightarrow> bool option" where
  "flag_of flags name = map_of flags name"

definition no_flag_set :: "(string \<times> bool) list \<Rightarrow> bool" where
  "no_flag_set flags \<longleftrightarrow> list_all (\<lambda>(k, v). \<not> v) flags"

section \<open>The upsert\<close>

lemma bar_key_do_update: "bar_key (do_update n b) = bar_key b"
  by (simp add: bar_key_def do_update_def)

lemma keys_upsert_row:
  "map bar_key (fst (upsert_row tbl n)) =
     (if bar_key n \<in> set (map bar_key tbl) then map bar_key tbl else map bar_key tbl @ [bar_key n])"
  by (induction tbl) (auto simp: upsert_row_def bar_key_do_update)

lemma distinct_upsert_row:
  "distinct (map bar_key tbl) \<Longrightarrow> distinct (map bar_key (fst (upsert_row tbl n)))"
  by (simp add: keys_upsert_row)

lemma set_keys_upsert_row:
  "set (map bar_key (fst (upsert_row tbl n))) = insert (bar_key n) (set (map bar_key tbl))"
  by (auto simp: keys_upsert_row)

lemma upserted_Cons:
  "fst (upserted tbl (n # ns)) = fst (upserted (fst (upsert_row tbl n)) ns)"
  by (simp add: split_def Let_def)

lemma distinct_upserted:
  "distinct (map bar_key tbl) \<Longrightarrow> distinct (map bar_key (fst (upserted tbl ns)))"
proof (induction ns arbitrary: tbl)
  case Nil
  then show ?case by simp
next
  case (Cons n ns)
  then show ?case
    using distinct_upsert_row upserted_Cons by presburger
qed

lemma set_keys_upserted:
  "set (map bar_key (fst (upserted tbl ns))) = set (map bar_key tbl) \<union> set (map bar_key ns)"
proof (induction ns arbitrary: tbl)
  case Nil
  then show ?case by simp
next
  case (Cons n ns)
  have "set (map bar_key (fst (upserted tbl (n # ns)))) =
        set (map bar_key (fst (upsert_row tbl n))) \<union> set (map bar_key ns)"
    using Cons.IH upserted_Cons by presburger
  then show ?case
    by (simp add: set_keys_upsert_row del: set_map)
qed

text \<open>Rows under another key are left as they are.\<close>

lemma filter_upsert_row:
  assumes "\<And>b. P b \<Longrightarrow> bar_key b \<noteq> bar_key n" 
    and "\<And>b. bar_key b = bar_key n \<Longrightarrow> \<not> P (do_update n b)"
  shows "filter P (fst (upsert_row tbl n)) = filter P tbl"
proof (cases "bar_key n \<in> set (map bar_key tbl)")
  case True
  have "filter P (map (\<lambda>b. if bar_key b = bar_key n then do_update n b else b) tbl) = filter P tbl"
    using assms by (induction tbl) auto
  with True show ?thesis by (simp add: upsert_row_def)
next
  case False
  with assms(1) show ?thesis by (auto simp: upsert_row_def)
qed

lemma filter_upserted:
  assumes "\<And>b n. n \<in> set ns \<Longrightarrow> P b \<Longrightarrow> bar_key b \<noteq> bar_key n" 
    and "\<And>b n. n \<in> set ns \<Longrightarrow> bar_key b = bar_key n \<Longrightarrow> \<not> P (do_update n b)"
  shows "filter P (fst (upserted tbl ns)) = filter P tbl"
  using assms
proof (induction ns arbitrary: tbl)
  case Nil
  then show ?case by simp
next
  case (Cons n ns)
  have "filter P (fst (upserted (fst (upsert_row tbl n)) ns)) = filter P (fst (upsert_row tbl n))"
    by (rule Cons.IH) (use Cons.prems in auto)
  moreover have "filter P (fst (upsert_row tbl n)) = filter P tbl"
    by (rule filter_upsert_row) (use Cons.prems in auto)
  ultimately show ?case by (simp only: upserted_Cons)
qed

lemma other_key_upserted:
  assumes "k \<notin> set (map bar_key ns)"
  shows "filter (\<lambda>b. bar_key b = k) (fst (upserted tbl ns)) = filter (\<lambda>b. bar_key b = k) tbl"
  by (rule filter_upserted) (use assms in \<open>auto simp: bar_key_do_update\<close>)

lemma row_of_upsert_row:
  assumes "b' \<in> set (fst (upsert_row tbl n))" and "bar_key b' = bar_key n"
  shows "(bar_key n \<notin> set (map bar_key tbl) \<and> b' = n)
       \<or> (\<exists>b \<in> set tbl. bar_key b = bar_key n \<and> b' = do_update n b)"
proof (cases "bar_key n \<in> set (map bar_key tbl)")
  case True
  with assms show ?thesis
    by (auto simp: upsert_row_def bar_key_do_update split: if_splits)
next
  case False
  with assms have "b' \<in> set tbl \<or> b' = n"
    by (auto simp: upsert_row_def)
  moreover from False assms(2) have "b' \<notin> set tbl"
    by (metis image_eqI set_map)
  ultimately show ?thesis
    using False by blast
qed

lemma member_filter_eq:
  "filter P xs = filter P ys \<Longrightarrow> x \<in> set xs \<Longrightarrow> P x \<Longrightarrow> x \<in> set ys"
proof -
  assume "filter P xs = filter P ys" "x \<in> set xs" "P x"
  then have "x \<in> set (filter P ys)"
    by (metis mem_Collect_eq set_filter)
  then show ?thesis by simp
qed

lemma row_of_upserted:
  assumes "distinct (map bar_key ns)" and "b' \<in> set (fst (upserted tbl ns))"
    and "n \<in> set ns" and "bar_key b' = bar_key n"
  shows "(bar_key n \<notin> set (map bar_key tbl) \<and> b' = n)
       \<or> (\<exists>b \<in> set tbl. bar_key b = bar_key n \<and> b' = do_update n b)"
  using assms
proof (induction ns arbitrary: tbl)
  case Nil
  then show ?case by simp
next
  case (Cons m ns)
  let ?tbl1 = "fst (upsert_row tbl m)"
  from Cons.prems(2) have in_res: "b' \<in> set (fst (upserted ?tbl1 ns))"
    by (simp only: upserted_Cons)
  show ?case
  proof (cases "n = m")
    case True
    with Cons.prems(1) have "bar_key n \<notin> set (map bar_key ns)" by simp
    then have "filter (\<lambda>b. bar_key b = bar_key n) (fst (upserted ?tbl1 ns))
             = filter (\<lambda>b. bar_key b = bar_key n) ?tbl1"
      by (rule other_key_upserted)
    with in_res Cons.prems(4) have "b' \<in> set ?tbl1"
      using member_filter_eq by fast
    with True Cons.prems(4) show ?thesis
      using row_of_upsert_row by blast
  next
    case False
    with Cons.prems have n_in: "n \<in> set ns" and d: "distinct (map bar_key ns)"
      by auto
    from n_in Cons.prems(1) have neq: "bar_key n \<noteq> bar_key m"
      by (metis distinct.simps(2) image_eqI list.simps(9) set_map)
    from Cons.IH[OF d in_res n_in Cons.prems(4)]
    consider "bar_key n \<notin> set (map bar_key ?tbl1)" "b' = n"
      | b where "b \<in> set ?tbl1" "bar_key b = bar_key n" "b' = do_update n b"
      by blast
    then show ?thesis
    proof cases
      case 1
      then show ?thesis
        using set_keys_upsert_row by blast
    next
      case 2
      have "filter (\<lambda>b. bar_key b = bar_key n) ?tbl1 = filter (\<lambda>b. bar_key b = bar_key n) tbl"
        by (rule filter_upsert_row) (use neq in \<open>auto simp: bar_key_do_update\<close>)
      with 2(1,2) have "b \<in> set tbl"
        using member_filter_eq by fast
      with 2 show ?thesis by blast
    qed
  qed
qed

section \<open>Valid tuples\<close>

lemma sql_max_pos: "sql_gt (sql_max xs) (Some 0) \<longleftrightarrow> (\<exists>c. Some c \<in> set xs \<and> 0 < c)"
proof (induction xs rule: sql_max.induct)
  case 1
  then show ?case by (simp add: sql_gt_def)
next
  case (2 xs)
  then show ?case by auto
next
  case (3 x xs)
  then show ?case
    by (cases "sql_max xs") (auto simp: sql_gt_def)
qed

lemma pivot_pos:
  "sql_gt (pivot s grp) (Some 0) \<longleftrightarrow>
     (\<exists>b \<in> set grp. canonical_symbol b = s \<and> (\<exists>c. close b = Some c \<and> 0 < c))"
proof -
  have "(\<exists>c. Some c \<in> set (map (\<lambda>b. if canonical_symbol b = s then close b else None) grp) \<and> 0 < c)
        \<longleftrightarrow> (\<exists>b \<in> set grp. canonical_symbol b = s \<and> (\<exists>c. close b = Some c \<and> 0 < c))"
  proof (induction grp)
    case Nil
    then show ?case by simp
  next
    case (Cons b grp)
    then show ?case by (cases "canonical_symbol b = s") auto
  qed
  then show ?thesis by (simp only: pivot_def sql_max_pos)
qed

lemma pivot_at_pos:
  "s \<in> set dxy_components \<Longrightarrow>
     sql_gt (pivot s (component_rows_at data_bars ts)) (Some 0) \<longleftrightarrow> component_valid data_bars ts s"
  unfolding pivot_pos component_valid_def component_rows_at_def by auto

lemma valid_fx_at: "valid_tuple (fx_at data_bars ts) \<longleftrightarrow> all_components_valid data_bars ts"
proof -
  have "\<And>s. s \<in> set dxy_components \<Longrightarrow>
          sql_gt (pivot s (component_rows_at data_bars ts)) (Some 0) = component_valid data_bars ts s"
    by (rule pivot_at_pos)
  then show ?thesis
    by (simp add: valid_tuple_def fx_at_def Let_def all_components_valid_def dxy_components_def)
qed

lemma fx_ts_fx_at: "fx_ts (fx_at data_bars ts) = ts"
  by (simp add: fx_at_def Let_def)

lemma set_base_timestamps:
  "set (base_timestamps data_bars f t) = {ts. f \<le> ts \<and> ts < t \<and> some_component_bar data_bars ts}"
  by (auto simp: base_timestamps_def component_rows_def some_component_bar_def)

lemma distinct_base_timestamps: "distinct (base_timestamps data_bars f t)"
  by (simp add: base_timestamps_def)

lemma group_in_range:
  "f \<le> ts \<Longrightarrow> ts < t \<Longrightarrow>
     filter (\<lambda>b. ts_utc b = ts) (component_rows data_bars f t) = component_rows_at data_bars ts"
  unfolding component_rows_def component_rows_at_def filter_filter
  by (rule filter_cong) auto

lemma fx_pivoted_eq:
  "fx_pivoted data_bars f t = map (fx_at data_bars) (base_timestamps data_bars f t)"
proof -
  have "\<And>ts. ts \<in> set (base_timestamps data_bars f t) \<Longrightarrow>
          filter (\<lambda>b. ts_utc b = ts) (component_rows data_bars f t) = component_rows_at data_bars ts"
    using group_in_range by (simp add: set_base_timestamps)
  then show ?thesis
    by (simp add: fx_pivoted_def base_timestamps_def fx_at_def Let_def cong: map_cong)
qed

lemma valid_tuples_eq:
  "valid_tuples data_bars f t =
     map (fx_at data_bars) (filter (all_components_valid data_bars) (base_timestamps data_bars f t))"
  by (simp add: valid_tuples_def fx_pivoted_eq filter_map comp_def valid_fx_at)

lemma valid_has_bar: "all_components_valid data_bars ts \<Longrightarrow> some_component_bar data_bars ts"
  by (auto simp: all_components_valid_def component_valid_def some_component_bar_def dxy_components_def)

lemma valid_ts:
  "map fx_ts (valid_tuples data_bars f t) =
     filter (all_components_valid data_bars) (base_timestamps data_bars f t)"
  by (simp add: valid_tuples_eq comp_def fx_ts_fx_at)

lemma set_valid_ts:
  "set (map fx_ts (valid_tuples data_bars f t)) = {ts. f \<le> ts \<and> ts < t \<and> all_components_valid data_bars ts}"
  unfolding valid_ts using valid_has_bar by (auto simp: set_base_timestamps)

lemma distinct_valid_ts: "distinct (map fx_ts (valid_tuples data_bars f t))"
  unfolding valid_ts by (simp add: distinct_base_timestamps)

lemma dxy_bars_eq:
  "dxy_bars pg data_bars f t =
     map (\<lambda>ts. (ts, dxy_price pg (fx_at data_bars ts)))
         (filter (all_components_valid data_bars) (base_timestamps data_bars f t))"
  by (simp add: dxy_bars_def valid_tuples_eq comp_def fx_ts_fx_at)

lemma map_fst_dxy_bars:
  "map fst (dxy_bars pg data_bars f t) = map fx_ts (valid_tuples data_bars f t)"
  by (simp add: dxy_bars_def comp_def)

lemma dxy_bars_price:
  "tp \<in> set (dxy_bars pg data_bars f t) \<Longrightarrow> snd tp = dxy_price pg (fx_at data_bars (fst tp))"
  by (auto simp: dxy_bars_eq)

lemma bar_key_dxy_row: "bar_key (dxy_row v now tp) = dxy_key (fst tp)"
  by (simp add: bar_key_def dxy_row_def dxy_key_def)

lemma keys_dxy_rows:
  "map bar_key (map (dxy_row v now) (dxy_bars pg data_bars f t)) =
     map dxy_key (map fx_ts (valid_tuples data_bars f t))"
  by (simp add: dxy_bars_def comp_def bar_key_dxy_row)

lemma distinct_keys_dxy_rows:
  "distinct (map bar_key (map (dxy_row v now) (dxy_bars pg data_bars f t)))"
  unfolding keys_dxy_rows using distinct_valid_ts
  by (simp add: distinct_map inj_on_def dxy_key_def)

section \<open>The index formula\<close>

lemma valid_tuple_closes:
  assumes "valid_tuple r"
  shows "0 < the (eurusd r)" "0 < the (usdjpy r)" "0 < the (gbpusd r)"
        "0 < the (usdcad r)" "0 < the (usdsek r)" "0 < the (usdchf r)"
proof -
  have pos: "\<And>x. sql_gt x (Some 0) \<Longrightarrow> 0 < the x"
    by (case_tac x) (simp_all add: sql_gt_def)
  from assms show "0 < the (eurusd r)" "0 < the (usdjpy r)" "0 < the (gbpusd r)"
        "0 < the (usdcad r)" "0 < the (usdsek r)" "0 < the (usdchf r)"
    by (simp_all add: valid_tuple_def pos)
qed

lemma dxy_formula_weights:
  "dxy_formula pg (the (eurusd r)) (the (usdjpy r)) (the (gbpusd r))
                  (the (usdcad r)) (the (usdsek r)) (the (usdchf r))
     = dxy_base * prod_list (map (\<lambda>(s, w). pg_exp pg (w * pg_ln pg (component_close r s))) dxy_weights)"
  by (simp add: dxy_formula_def dxy_base_def dxy_weights_def component_close_def)

lemma valid_component_close:
  assumes "valid_tuple r" and "(s, w) \<in> set dxy_weights"
  shows "0 < component_close r s"
  using assms(2) valid_tuple_closes[OF assms(1)]
  by (auto simp: dxy_weights_def component_close_def)

text \<open>
  C1 (as amended). For every valid tuple, the price is the DECIMAL(20,8) cast of the base
  constant times the product over the weight table of \<open>exp (w * ln close)\<close>, with the
  database's \<open>ln\<close> and \<open>exp\<close>; every close in it is above zero, so with exact \<open>ln\<close> and
  \<open>exp\<close> each factor is the close raised to its weight and the price is the cast of
  \<open>K * \<Prod> close powr w\<close>. The table has the six components in order, with two negative and
  four positive exponents.
\<close>

theorem dxy_price_weighted_product:
  assumes "r \<in> set (valid_tuples data_bars p_from_utc p_to_utc)"
  shows "dxy_price pg r =
           decimal_20_8 (dxy_base * prod_list
             (map (\<lambda>(s, w). pg_exp pg (w * pg_ln pg (component_close r s))) dxy_weights))
         \<and> list_all (\<lambda>(s, w). 0 < component_close r s) dxy_weights
         \<and> dxy_price exact_math r =
             decimal_20_8 (dxy_base * prod_list (map (\<lambda>(s, w). component_close r s powr w) dxy_weights))
         \<and> map fst dxy_weights = dxy_components
         \<and> length (filter (\<lambda>(s, w). w < 0) dxy_weights) = 2
         \<and> length (filter (\<lambda>(s, w). 0 < w) dxy_weights) = 4"
proof -
  from assms have v: "valid_tuple r"
    by (simp add: valid_tuples_def)
  have price: "dxy_price pg r =
           decimal_20_8 (dxy_base * prod_list
             (map (\<lambda>(s, w). pg_exp pg (w * pg_ln pg (component_close r s))) dxy_weights))" for pg
    by (simp only: dxy_price_def dxy_formula_weights)
  have pos: "list_all (\<lambda>(s, w). 0 < component_close r s) dxy_weights"
    unfolding list_all_iff using valid_component_close[OF v] by auto
  have "map (\<lambda>(s, w). pg_exp exact_math (w * pg_ln exact_math (component_close r s))) dxy_weights
          = map (\<lambda>(s, w). component_close r s powr w) dxy_weights"
  proof (rule map_cong[OF refl])
    fix x assume x: "x \<in> set dxy_weights"
    obtain s w where sw: "x = (s, w)" by (cases x)
    with x v have "0 < component_close r s" by (simp add: valid_component_close)
    with sw show "(case x of (s, w) \<Rightarrow> pg_exp exact_math (w * pg_ln exact_math (component_close r s)))
                = (case x of (s, w) \<Rightarrow> component_close r s powr w)"
      by (simp add: exact_math_def powr_def)
  qed
  with price[of exact_math]
  have exact: "dxy_price exact_math r =
      decimal_20_8 (dxy_base * prod_list (map (\<lambda>(s, w). component_close r s powr w) dxy_weights))"
    by simp
  have table: "map fst dxy_weights = dxy_components"
      "length (filter (\<lambda>(s, w). w < 0) dxy_weights) = 2"
      "length (filter (\<lambda>(s, w). 0 < w) dxy_weights) = 4"
    by (simp_all add: dxy_weights_def dxy_components_def)
  from price[of pg] pos exact table show ?thesis by blast
qed

lemmas example_defs = example_components_def example_bar_def dxy_components_def

lemmas example_quotes_defs = example_quotes_def example_bar_def dxy_components_def
  fx_at_def component_rows_at_def pivot_def

lemma example_quotes_valid:
  "valid_tuples example_quotes 0 60000000 = [fx_at example_quotes 0]"
proof -
  have "valid_tuple (fx_at example_quotes 0)"
    by (simp add: valid_tuple_def sql_gt_def example_quotes_defs)
  then have "all_components_valid example_quotes 0"
    by (simp only: valid_fx_at)
  moreover have "base_timestamps example_quotes 0 60000000 = [0]"
    by (simp add: base_timestamps_def component_rows_def example_quotes_def example_bar_def
          dxy_components_def)
  ultimately show ?thesis
    by (simp add: valid_tuples_eq)
qed

lemma example_quotes_closes:
  "map (component_close (fx_at example_quotes 0)) dxy_components = [1.08, 150, 1.27, 1.36, 10.5, 0.88]"
  by (simp add: component_close_def example_quotes_defs)

lemma example_quotes_product:
  "prod_list (map (\<lambda>(s, w). component_close (fx_at example_quotes 0) s powr w) dxy_weights)
     = 1.08 powr (-0.576) * (150 powr 0.136 * (1.27 powr (-0.119)
         * (1.36 powr 0.091 * (10.5 powr 0.042 * 0.88 powr 0.036))))"
  by (simp add: dxy_weights_def component_close_def example_quotes_defs)

theorem dxy_price_weighted_product_witness:
  "fx_at example_quotes 0 \<in> set (valid_tuples example_quotes 0 60000000)
   \<and> map (component_close (fx_at example_quotes 0)) dxy_components = [1.08, 150, 1.27, 1.36, 10.5, 0.88]
   \<and> dxy_price exact_math (fx_at example_quotes 0)
       = decimal_20_8 (50.14348112 * (1.08 powr (-0.576) * (150 powr 0.136 * (1.27 powr (-0.119)
           * (1.36 powr 0.091 * (10.5 powr 0.042 * 0.88 powr 0.036))))))"
proof -
  have m: "fx_at example_quotes 0 \<in> set (valid_tuples example_quotes 0 60000000)"
    by (simp add: example_quotes_valid)
  from dxy_price_weighted_product[OF m, of exact_math]
  have "dxy_price exact_math (fx_at example_quotes 0)
       = decimal_20_8 (dxy_base * prod_list
           (map (\<lambda>(s, w). component_close (fx_at example_quotes 0) s powr w) dxy_weights))"
    by blast
  then have "dxy_price exact_math (fx_at example_quotes 0)
       = decimal_20_8 (50.14348112 * (1.08 powr (-0.576) * (150 powr 0.136 * (1.27 powr (-0.119)
           * (1.36 powr 0.091 * (10.5 powr 0.042 * 0.88 powr 0.036))))))"
    by (simp only: example_quotes_product dxy_base_def)
  with m example_quotes_closes show ?thesis by blast
qed

text \<open>
  C1 (as stated) fails: even with exact \<open>ln\<close> and \<open>exp\<close>, no base constant and exponents
  with three negative and three positive signs reproduce the formula, since the formula
  fixes its exponents.
\<close>

theorem dxy_weights_three_three_counterexample:
  "\<not> (\<exists>K w1 w2 w3 w4 w5 w6.
        (\<forall>e j g c s h. 0 < e \<and> 0 < j \<and> 0 < g \<and> 0 < c \<and> 0 < s \<and> 0 < h \<longrightarrow>
           dxy_formula exact_math e j g c s h
             = K * e powr w1 * j powr w2 * g powr w3 * c powr w4 * s powr w5 * h powr w6)
        \<and> length (filter (\<lambda>w. w < 0) [w1, w2, w3, w4, w5, w6]) = 3
        \<and> length (filter (\<lambda>w. 0 < w) [w1, w2, w3, w4, w5, w6]) = 3)"
proof
  assume "\<exists>K w1 w2 w3 w4 w5 w6.
        (\<forall>e j g c s h. 0 < e \<and> 0 < j \<and> 0 < g \<and> 0 < c \<and> 0 < s \<and> 0 < h \<longrightarrow>
           dxy_formula exact_math e j g c s h
             = K * e powr w1 * j powr w2 * g powr w3 * c powr w4 * s powr w5 * h powr w6)
        \<and> length (filter (\<lambda>w. w < 0) [w1, w2, w3, w4, w5, w6]) = 3
        \<and> length (filter (\<lambda>w. 0 < w) [w1, w2, w3, w4, w5, w6]) = 3"
  then obtain K w1 w2 w3 w4 w5 w6 where
    eq: "\<And>e j g c s h. 0 < e \<Longrightarrow> 0 < j \<Longrightarrow> 0 < g \<Longrightarrow> 0 < c \<Longrightarrow> 0 < s \<Longrightarrow> 0 < h \<Longrightarrow>
           dxy_formula exact_math e j g c s h
             = K * e powr w1 * j powr w2 * g powr w3 * c powr w4 * s powr w5 * h powr w6"
    and pos: "length (filter (\<lambda>w. 0 < w) [w1, w2, w3, w4, w5, w6]) = 3"
    by blast
  have e1: "exp 1 powr w = exp w" for w :: real
    by (simp add: powr_def)
  from eq[of 1 1 1 1 1 1] have K: "K = 50.14348112"
    by (simp add: dxy_formula_def exact_math_def)
  from eq[of 1 "exp 1" 1 1 1 1] have "w2 = 0.136"
    by (simp add: dxy_formula_def exact_math_def K e1)
  moreover from eq[of 1 1 1 "exp 1" 1 1] have "w4 = 0.091"
    by (simp add: dxy_formula_def exact_math_def K e1)
  moreover from eq[of 1 1 1 1 "exp 1" 1] have "w5 = 0.042"
    by (simp add: dxy_formula_def exact_math_def K e1)
  moreover from eq[of 1 1 1 1 1 "exp 1"] have "w6 = 0.036"
    by (simp add: dxy_formula_def exact_math_def K e1)
  ultimately have "4 \<le> length (filter (\<lambda>w. 0 < w) [w1, w2, w3, w4, w5, w6])"
    by simp
  with pos show False by simp
qed

section \<open>What a call of \<^verbatim>\<open>calc_dxy_range_1m\<close> writes\<close>

lemma calc_success:
  assumes "calc_dxy_range_1m pg data_bars f t v now = (Succeeded i u s v', tbl)"
  shows "f < t" and "\<forall>tp \<in> set (dxy_bars pg data_bars f t). snd tp \<noteq> None"
    and "tbl = fst (upserted data_bars (dxy_rows pg data_bars f t v now))"
    and "s = length (filter (\<lambda>ts. ts \<notin> set (map fx_ts (valid_tuples data_bars f t)))
                            (base_timestamps data_bars f t))"
  using assms
  by (auto simp: calc_dxy_range_1m_def dxy_rows_def Let_def split_def split: if_splits)

lemma calc_table:
  "snd (calc_dxy_range_1m pg data_bars f t v now) = data_bars
   \<or> snd (calc_dxy_range_1m pg data_bars f t v now) = fst (upserted data_bars (dxy_rows pg data_bars f t v now))"
  by (auto simp: calc_dxy_range_1m_def dxy_rows_def Let_def split_def)

lemma dxy_rows_keys:
  "map bar_key (dxy_rows pg data_bars f t v now) = map dxy_key (map fx_ts (valid_tuples data_bars f t))"
  unfolding dxy_rows_def by (rule keys_dxy_rows)

lemma distinct_dxy_rows: "distinct (map bar_key (dxy_rows pg data_bars f t v now))"
  unfolding dxy_rows_def by (rule distinct_keys_dxy_rows)

lemma dxy_rows_member:
  assumes "f \<le> ts" "ts < t" "all_components_valid data_bars ts"
  shows "dxy_row v now (ts, dxy_price pg (fx_at data_bars ts)) \<in> set (dxy_rows pg data_bars f t v now)"
proof -
  from assms have "ts \<in> set (filter (all_components_valid data_bars) (base_timestamps data_bars f t))"
    using valid_has_bar by (simp add: set_base_timestamps)
  then show ?thesis
    unfolding dxy_rows_def dxy_bars_eq by force
qed

lemma dxy_key_in_rows:
  "dxy_key ts \<in> set (map bar_key (dxy_rows pg data_bars f t v now))
     \<longleftrightarrow> f \<le> ts \<and> ts < t \<and> all_components_valid data_bars ts"
proof -
  have "set (map bar_key (dxy_rows pg data_bars f t v now))
          = dxy_key ` set (map fx_ts (valid_tuples data_bars f t))"
    unfolding dxy_rows_keys by (rule set_map)
  then show ?thesis
    unfolding set_valid_ts by (auto simp: dxy_key_def)
qed

text \<open>
  A row of the table after the upsert, under the key of a valid timestamp: the proposed
  row itself, or the stored row with the six updated columns.
\<close>

lemma written_row:
  assumes tbl: "tbl = fst (upserted data_bars (dxy_rows pg data_bars f t v now))"
    and b: "b \<in> set tbl" "bar_key b = dxy_key ts"
    and ts: "f \<le> ts" "ts < t" "all_components_valid data_bars ts"
  shows "(dxy_key ts \<notin> set (map bar_key data_bars)
            \<and> b = dxy_row v now (ts, dxy_price pg (fx_at data_bars ts)))
       \<or> (\<exists>old \<in> set data_bars. bar_key old = dxy_key ts
            \<and> b = do_update (dxy_row v now (ts, dxy_price pg (fx_at data_bars ts))) old)"
proof -
  let ?n = "dxy_row v now (ts, dxy_price pg (fx_at data_bars ts))"
  have n: "?n \<in> set (dxy_rows pg data_bars f t v now)"
    using ts by (rule dxy_rows_member)
  have k: "bar_key b = bar_key ?n"
    using b(2) by (simp add: bar_key_dxy_row)
  from row_of_upserted[OF distinct_dxy_rows b(1)[unfolded tbl] n k]
  show ?thesis by (simp add: bar_key_dxy_row)
qed

lemma written_row_columns:
  assumes "(k \<notin> set (map bar_key data_bars) \<and> b = dxy_row v now (ts, p))
       \<or> (\<exists>old \<in> set data_bars. bar_key old = k \<and> b = do_update (dxy_row v now (ts, p)) old)"
  shows "open_col b = p" "high b = p" "low b = p" "close b = p"
        "source b = ''synthetic''" "ingested_at b = now"
  using assms by (auto simp: dxy_row_def do_update_def)

text \<open>The upsert leaves the component rows alone, and with them everything read from them.\<close>

lemma component_filter_upserted:
  assumes "\<And>b. P b \<Longrightarrow> canonical_symbol b \<in> set dxy_components"
  shows "filter P (fst (upserted tbl (dxy_rows pg data_bars f t v now))) = filter P tbl"
proof (rule filter_upserted)
  have not_comp: "''DXY'' \<notin> set dxy_components"
    by (simp add: dxy_components_def)
  fix b n assume n: "n \<in> set (dxy_rows pg data_bars f t v now)"
  then have s: "canonical_symbol n = ''DXY''"
    by (auto simp: dxy_rows_def dxy_row_def)
  { assume "P b"
    then have "canonical_symbol b \<noteq> ''DXY''"
      using assms not_comp by metis
    with s show "bar_key b \<noteq> bar_key n" by (auto simp: bar_key_def) }
  { assume "bar_key b = bar_key n"
    with s have "canonical_symbol (do_update n b) = ''DXY''"
      by (simp add: bar_key_def do_update_def)
    then show "\<not> P (do_update n b)"
      using assms not_comp by metis }
qed

lemma component_rows_calc:
  "component_rows (snd (calc_dxy_range_1m pg data_bars f t v now)) f' t' = component_rows data_bars f' t'"
proof -
  have "component_rows (fst (upserted data_bars (dxy_rows pg data_bars f t v now))) f' t'
          = component_rows data_bars f' t'"
    unfolding component_rows_def by (rule component_filter_upserted) simp
  with calc_table[of pg data_bars f t v now] show ?thesis by auto
qed

lemma component_rows_at_calc:
  "component_rows_at (snd (calc_dxy_range_1m pg data_bars f t v now)) ts = component_rows_at data_bars ts"
proof -
  have "component_rows_at (fst (upserted data_bars (dxy_rows pg data_bars f t v now))) ts
          = component_rows_at data_bars ts"
    unfolding component_rows_at_def by (rule component_filter_upserted) simp
  with calc_table[of pg data_bars f t v now] show ?thesis by auto
qed

lemma fx_at_calc:
  "fx_at (snd (calc_dxy_range_1m pg data_bars f t v now)) ts = fx_at data_bars ts"
  by (simp add: fx_at_def component_rows_at_calc)

lemma all_components_valid_calc:
  "all_components_valid (snd (calc_dxy_range_1m pg data_bars f t v now)) ts = all_components_valid data_bars ts"
  by (simp add: fx_at_calc flip: valid_fx_at)

lemma base_timestamps_calc:
  "base_timestamps (snd (calc_dxy_range_1m pg data_bars f t v now)) f' t' = base_timestamps data_bars f' t'"
  by (simp add: base_timestamps_def component_rows_calc)

lemma dxy_rows_calc:
  "dxy_rows pg (snd (calc_dxy_range_1m pg data_bars f t v now)) f' t' v' now' = dxy_rows pg data_bars f' t' v' now'"
  by (simp add: dxy_rows_def dxy_bars_eq base_timestamps_calc fx_at_calc all_components_valid_calc cong: filter_cong)

section \<open>Valid and skipped timestamps\<close>

lemma upserted_flags:
  "distinct (map bar_key ns) \<Longrightarrow>
     snd (upserted tbl ns) = map (\<lambda>n. bar_key n \<notin> set (map bar_key tbl)) ns"
proof (induction ns arbitrary: tbl)
  case Nil
  then show ?case by simp
next
  case (Cons n ns)
  let ?tbl1 = "fst (upsert_row tbl n)"
  from Cons.prems have d: "distinct (map bar_key ns)" and new: "bar_key n \<notin> set (map bar_key ns)"
    by simp_all
  have "snd (upserted ?tbl1 ns) = map (\<lambda>m. bar_key m \<notin> set (map bar_key ?tbl1)) ns"
    using d by (rule Cons.IH)
  also have "\<dots> = map (\<lambda>m. bar_key m \<notin> set (map bar_key tbl)) ns"
  proof (rule map_cong[OF refl])
    fix m assume "m \<in> set ns"
    with new have "bar_key m \<noteq> bar_key n"
      by (metis image_eqI set_map)
    then show "(bar_key m \<notin> set (map bar_key ?tbl1)) = (bar_key m \<notin> set (map bar_key tbl))"
      by (simp only: set_keys_upsert_row) blast
  qed
  finally have tail: "snd (upserted ?tbl1 ns) = map (\<lambda>m. bar_key m \<notin> set (map bar_key tbl)) ns" .
  have "snd (upsert_row tbl n) = (bar_key n \<notin> set (map bar_key tbl))"
    by (simp add: upsert_row_def)
  with tail show ?case
    by (simp add: split_def Let_def)
qed

lemma count_dxy_rows:
  "length (filter (\<lambda>n. P (bar_key n)) (dxy_rows pg data_bars f t v now))
     = card (valid_ts_where data_bars f t P)"
proof -
  let ?ts = "filter (all_components_valid data_bars) (base_timestamps data_bars f t)"
  have "filter (\<lambda>n. P (bar_key n)) (dxy_rows pg data_bars f t v now)
          = map (\<lambda>ts. dxy_row v now (ts, dxy_price pg (fx_at data_bars ts)))
                (filter (\<lambda>ts. P (dxy_key ts)) ?ts)"
    unfolding dxy_rows_def dxy_bars_eq by (simp add: filter_map comp_def bar_key_dxy_row)
  then have "length (filter (\<lambda>n. P (bar_key n)) (dxy_rows pg data_bars f t v now))
          = length (filter (\<lambda>ts. P (dxy_key ts)) ?ts)"
    by simp
  also have "\<dots> = card (set (filter (\<lambda>ts. P (dxy_key ts)) ?ts))"
    by (rule distinct_card[symmetric]) (simp only: distinct_filter distinct_base_timestamps)
  also have "set (filter (\<lambda>ts. P (dxy_key ts)) ?ts) = valid_ts_where data_bars f t P"
    using set_valid_ts[of data_bars f t] unfolding valid_ts valid_ts_where_def by auto
  finally show ?thesis .
qed

lemma no_overflow_iff:
  "no_overflow pg data_bars f t \<longleftrightarrow> (\<forall>tp \<in> set (dxy_bars pg data_bars f t). snd tp \<noteq> None)"
proof -
  have "set (filter (all_components_valid data_bars) (base_timestamps data_bars f t))
          = {ts. f \<le> ts \<and> ts < t \<and> all_components_valid data_bars ts}"
    using set_valid_ts[of data_bars f t] unfolding valid_ts .
  then show ?thesis
    unfolding no_overflow_def dxy_bars_eq by auto
qed

lemma calc_fails:
  assumes "\<not> (f < t \<and> no_overflow pg data_bars f t)"
  shows "\<exists>msg. calc_dxy_range_1m pg data_bars f t v now = (Failed msg, data_bars)"
  using assms by (auto simp: calc_dxy_range_1m_def no_overflow_iff Let_def)

lemma calc_succeeds:
  assumes "f < t" "no_overflow pg data_bars f t"
  shows "calc_dxy_range_1m pg data_bars f t v now
           = (Succeeded (card (valid_ts_where data_bars f t (\<lambda>k. k \<notin> set (map bar_key data_bars))))
                        (card (valid_ts_where data_bars f t (\<lambda>k. k \<in> set (map bar_key data_bars))))
                        (length (filter (\<lambda>ts. ts \<notin> set (map fx_ts (valid_tuples data_bars f t)))
                                        (base_timestamps data_bars f t)))
                        v,
              fst (upserted data_bars (dxy_rows pg data_bars f t v now)))"
proof -
  let ?rows = "dxy_rows pg data_bars f t v now"
  have flags: "snd (upserted data_bars ?rows) = map (\<lambda>n. bar_key n \<notin> set (map bar_key data_bars)) ?rows"
    using distinct_dxy_rows by (rule upserted_flags)
  have ins: "length (filter (\<lambda>f. f) (snd (upserted data_bars ?rows)))
        = card (valid_ts_where data_bars f t (\<lambda>k. k \<notin> set (map bar_key data_bars)))"
    unfolding flags filter_map length_map comp_def
    by (rule count_dxy_rows[where P = "\<lambda>k. k \<notin> set (map bar_key data_bars)"])
  have upd: "length (filter (\<lambda>f. \<not> f) (snd (upserted data_bars ?rows)))
        = card (valid_ts_where data_bars f t (\<lambda>k. k \<in> set (map bar_key data_bars)))"
    unfolding flags filter_map length_map comp_def not_not
    by (rule count_dxy_rows[where P = "\<lambda>k. k \<in> set (map bar_key data_bars)"])
  from assms have "\<not> (\<exists>tp \<in> set (dxy_bars pg data_bars f t). snd tp = None)"
    by (simp add: no_overflow_iff)
  with assms(1) ins upd show ?thesis
    by (simp add: calc_dxy_range_1m_def Let_def split_def dxy_rows_def)
qed

text \<open>What a successful call has written and counted.\<close>

lemma calc_success_rows:
  assumes "calc_dxy_range_1m pg data_bars p_from_utc p_to_utc v now = (Succeeded i u s v', tbl)"
  shows "(\<forall>ts. p_from_utc \<le> ts \<and> ts < p_to_utc \<longrightarrow>
            (dxy_key ts \<in> set (map bar_key (dxy_rows pg data_bars p_from_utc p_to_utc v now))
               \<longleftrightarrow> all_components_valid data_bars ts)
          \<and> (all_components_valid data_bars ts \<longrightarrow>
               (\<exists>b \<in> set tbl. bar_key b = dxy_key ts \<and> close b = dxy_price pg (fx_at data_bars ts)
                  \<and> source b = ''synthetic'' \<and> ingested_at b = now))
          \<and> (\<not> all_components_valid data_bars ts \<longrightarrow>
               filter (\<lambda>b. bar_key b = dxy_key ts) tbl = filter (\<lambda>b. bar_key b = dxy_key ts) data_bars))
       \<and> s = card {ts. p_from_utc \<le> ts \<and> ts < p_to_utc \<and> some_component_bar data_bars ts
                      \<and> \<not> all_components_valid data_bars ts}"
proof -
  let ?rows = "dxy_rows pg data_bars p_from_utc p_to_utc v now"
  note ok = calc_success[OF assms]
  have tbl: "tbl = fst (upserted data_bars ?rows)" by (rule ok(3))
  { fix ts assume r: "p_from_utc \<le> ts" "ts < p_to_utc"
    have a: "dxy_key ts \<in> set (map bar_key ?rows) \<longleftrightarrow> all_components_valid data_bars ts"
      using r dxy_key_in_rows[of ts pg data_bars p_from_utc p_to_utc v now] by blast
    have b: "\<exists>b \<in> set tbl. bar_key b = dxy_key ts \<and> close b = dxy_price pg (fx_at data_bars ts)
                  \<and> source b = ''synthetic'' \<and> ingested_at b = now"
      if v: "all_components_valid data_bars ts"
    proof -
      from v a have "dxy_key ts \<in> set (map bar_key tbl)"
        unfolding tbl set_keys_upserted by blast
      then obtain b where b: "b \<in> set tbl" "bar_key b = dxy_key ts" by auto
      from written_row_columns[OF written_row[OF tbl b r v]] b show ?thesis by blast
    qed
    have c: "filter (\<lambda>b. bar_key b = dxy_key ts) tbl = filter (\<lambda>b. bar_key b = dxy_key ts) data_bars"
      if "\<not> all_components_valid data_bars ts"
      unfolding tbl using that a by (intro other_key_upserted) blast
    note a b c }
  note per_ts = this
  have "s = length (filter (\<lambda>ts. ts \<notin> set (map fx_ts (valid_tuples data_bars p_from_utc p_to_utc)))
                            (base_timestamps data_bars p_from_utc p_to_utc))"
    by (rule ok(4))
  also have "\<dots> = card (set (filter (\<lambda>ts. ts \<notin> set (map fx_ts (valid_tuples data_bars p_from_utc p_to_utc)))
                            (base_timestamps data_bars p_from_utc p_to_utc)))"
    by (rule distinct_card[symmetric]) (simp only: distinct_filter distinct_base_timestamps)
  also have "set (filter (\<lambda>ts. ts \<notin> set (map fx_ts (valid_tuples data_bars p_from_utc p_to_utc)))
                            (base_timestamps data_bars p_from_utc p_to_utc))
           = {ts. p_from_utc \<le> ts \<and> ts < p_to_utc \<and> some_component_bar data_bars ts
                      \<and> \<not> all_components_valid data_bars ts}"
    unfolding set_filter set_valid_ts set_base_timestamps by auto
  finally show ?thesis using per_ts by blast
qed

lemmas calc_eval_defs =
  calc_dxy_range_1m_def dxy_bars_def dxy_price_def dxy_formula_def decimal_20_8_def
  round_half_away_def valid_tuples_def fx_pivoted_def component_rows_def pivot_def
  valid_tuple_def sql_gt_def dxy_row_def upsert_row_def bar_key_def do_update_def
  base_timestamps_def exact_math_def

text \<open>
  C5 (as amended). A call with \<open>p_from_utc < p_to_utc\<close> in which no valid timestamp's price
  overflows DECIMAL(20,8) returns success, and then for every timestamp of the range an
  index bar is among the rows written exactly when all six components have a 1-minute bar
  there with a close above zero; the table then holds the bar with the computed price; for
  a timestamp without a full set of valid components the rows under the index key are the
  ones stored before; \<open>inserted\<close> and \<open>updated\<close> count the valid timestamps whose key was
  absent and present, and \<open>skipped\<close> counts the timestamps of the range that have some
  component bar but not a full valid set. Any other call returns the failure object and
  leaves the table as it was.
\<close>

theorem calc_writes_iff_all_valid:
  "(p_from_utc < p_to_utc \<and> no_overflow pg data_bars p_from_utc p_to_utc \<longrightarrow>
      (\<exists>i u s tbl.
         calc_dxy_range_1m pg data_bars p_from_utc p_to_utc v now = (Succeeded i u s v, tbl)
         \<and> i = card (valid_ts_where data_bars p_from_utc p_to_utc (\<lambda>k. k \<notin> set (map bar_key data_bars)))
         \<and> u = card (valid_ts_where data_bars p_from_utc p_to_utc (\<lambda>k. k \<in> set (map bar_key data_bars)))
         \<and> s = card {ts. p_from_utc \<le> ts \<and> ts < p_to_utc \<and> some_component_bar data_bars ts
                        \<and> \<not> all_components_valid data_bars ts}
         \<and> (\<forall>ts. p_from_utc \<le> ts \<and> ts < p_to_utc \<longrightarrow>
              (dxy_key ts \<in> set (map bar_key (dxy_rows pg data_bars p_from_utc p_to_utc v now))
                 \<longleftrightarrow> all_components_valid data_bars ts)
              \<and> (all_components_valid data_bars ts \<longrightarrow>
                   (\<exists>b \<in> set tbl. bar_key b = dxy_key ts \<and> close b = dxy_price pg (fx_at data_bars ts)
                      \<and> source b = ''synthetic'' \<and> ingested_at b = now))
              \<and> (\<not> all_components_valid data_bars ts \<longrightarrow>
                   filter (\<lambda>b. bar_key b = dxy_key ts) tbl
                     = filter (\<lambda>b. bar_key b = dxy_key ts) data_bars))))
   \<and> (\<not> (p_from_utc < p_to_utc \<and> no_overflow pg data_bars p_from_utc p_to_utc) \<longrightarrow>
        (\<exists>msg. calc_dxy_range_1m pg data_bars p_from_utc p_to_utc v now = (Failed msg, data_bars)))"
proof (intro conjI impI)
  assume ok: "p_from_utc < p_to_utc \<and> no_overflow pg data_bars p_from_utc p_to_utc"
  then have eq: "calc_dxy_range_1m pg data_bars p_from_utc p_to_utc v now
           = (Succeeded (card (valid_ts_where data_bars p_from_utc p_to_utc (\<lambda>k. k \<notin> set (map bar_key data_bars))))
                        (card (valid_ts_where data_bars p_from_utc p_to_utc (\<lambda>k. k \<in> set (map bar_key data_bars))))
                        (length (filter (\<lambda>ts. ts \<notin> set (map fx_ts (valid_tuples data_bars p_from_utc p_to_utc)))
                                        (base_timestamps data_bars p_from_utc p_to_utc)))
                        v,
              fst (upserted data_bars (dxy_rows pg data_bars p_from_utc p_to_utc v now)))"
    by (simp add: calc_succeeds)
  from calc_success_rows[OF eq] eq
  show "\<exists>i u s tbl.
         calc_dxy_range_1m pg data_bars p_from_utc p_to_utc v now = (Succeeded i u s v, tbl)
         \<and> i = card (valid_ts_where data_bars p_from_utc p_to_utc (\<lambda>k. k \<notin> set (map bar_key data_bars)))
         \<and> u = card (valid_ts_where data_bars p_from_utc p_to_utc (\<lambda>k. k \<in> set (map bar_key data_bars)))
         \<and> s = card {ts. p_from_utc \<le> ts \<and> ts < p_to_utc \<and> some_component_bar data_bars ts
                        \<and> \<not> all_components_valid data_bars ts}
         \<and> (\<forall>ts. p_from_utc \<le> ts \<and> ts < p_to_utc \<longrightarrow>
              (dxy_key ts \<in> set (map bar_key (dxy_rows pg data_bars p_from_utc p_to_utc v now))
                 \<longleftrightarrow> all_components_valid data_bars ts)
              \<and> (all_components_valid data_bars ts \<longrightarrow>
                   (\<exists>b \<in> set tbl. bar_key b = dxy_key ts \<and> close b = dxy_price pg (fx_at data_bars ts)
                      \<and> source b = ''synthetic'' \<and> ingested_at b = now))
              \<and> (\<not> all_components_valid data_bars ts \<longrightarrow>
                   filter (\<lambda>b. bar_key b = dxy_key ts) tbl
                     = filter (\<lambda>b. bar_key b = dxy_key ts) data_bars))"
    by (intro exI conjI) (assumption | rule refl | blast)+
next
  assume "\<not> (p_from_utc < p_to_utc \<and> no_overflow pg data_bars p_from_utc p_to_utc)"
  then show "\<exists>msg. calc_dxy_range_1m pg data_bars p_from_utc p_to_utc v now = (Failed msg, data_bars)"
    by (rule calc_fails)
qed

lemma example_partial_calc:
  "calc_dxy_range_1m exact_math example_partial 0 120000000 1 99
     = (Succeeded 1 0 1 1, example_partial @ [dxy_row 1 99 (0, Some 50.14348112)])"
  by (simp add: example_partial_def example_defs calc_eval_defs exact_math_def)

lemma example_partial_no_overflow: "no_overflow exact_math example_partial 0 120000000"
  unfolding no_overflow_iff
  by (simp add: example_partial_def example_defs calc_eval_defs exact_math_def)

theorem calc_writes_iff_all_valid_witness:
  "no_overflow exact_math example_partial 0 120000000
   \<and> calc_dxy_range_1m exact_math example_partial 0 120000000 1 99
       = (Succeeded 1 0 1 1, example_partial @ [dxy_row 1 99 (0, Some 50.14348112)])
   \<and> all_components_valid example_partial 0
   \<and> dxy_key 0 \<in> set (map bar_key (dxy_rows exact_math example_partial 0 120000000 1 99))
   \<and> \<not> all_components_valid example_partial 60000000
   \<and> dxy_key 60000000 \<notin> set (map bar_key (dxy_rows exact_math example_partial 0 120000000 1 99))
   \<and> card (valid_ts_where example_partial 0 120000000 (\<lambda>k. k \<notin> set (map bar_key example_partial))) = 1
   \<and> card (valid_ts_where example_partial 0 120000000 (\<lambda>k. k \<in> set (map bar_key example_partial))) = 0
   \<and> card {ts. 0 \<le> ts \<and> ts < 120000000 \<and> some_component_bar example_partial ts
                  \<and> \<not> all_components_valid example_partial ts} = 1"
proof -
  have v0: "all_components_valid example_partial 0"
    by (simp add: all_components_valid_def component_valid_def example_partial_def example_defs)
  have v1: "\<not> all_components_valid example_partial 60000000"
    by (simp add: all_components_valid_def component_valid_def example_partial_def example_defs)
  from calc_writes_iff_all_valid[of 0 120000000 exact_math example_partial 1 99]
    example_partial_no_overflow example_partial_calc v0 v1
  show ?thesis by simp
qed

lemma overflow_price:
  "decimal_20_8 (50.14348112 * exp (- 0.576 * ln (1 / 10 ^ 30))) = None"
proof -
  let ?x = "50.14348112 * exp (- 0.576 * ln (1 / 10 ^ 30)) :: real"
  have "ln ((10::real) ^ 30) = real 30 * ln 10"
    by (rule ln_realpow)
  moreover have "ln (1 / 10 ^ 30 :: real) = ln 1 - ln (10 ^ 30)"
    by (rule ln_divide_pos) simp_all
  ultimately have "ln (1 / 10 ^ 30 :: real) = - (30 * ln 10)"
    by simp
  then have "exp (- 0.576 * ln (1 / 10 ^ 30 :: real)) = 10 powr 17.28"
    by (simp add: powr_def)
  moreover have "(10::real) powr 12 \<le> 10 powr 17.28"
    by (rule powr_mono) simp_all
  moreover have "(10::real) powr 12 = 10 ^ 12"
    by (simp add: powr_numeral)
  ultimately have e: "(10::real) ^ 12 \<le> exp (- 0.576 * ln (1 / 10 ^ 30))"
    by simp
  have "(1::real) * 10 ^ 12 \<le> ?x"
    by (rule mult_mono[OF _ e]) simp_all
  then have big: "(10::real) ^ 20 \<le> ?x * 10 ^ 8"
    by simp
  then have "0 \<le> ?x * 10 ^ 8"
    by (rule order_trans[rotated]) simp
  moreover have "(10::int) ^ 20 \<le> \<lfloor>?x * 10 ^ 8 + 1 / 2\<rfloor>"
    using big by (simp add: le_floor_iff)
  ultimately have "\<not> \<bar>round_half_away (?x * 10 ^ 8)\<bar> < 10 ^ 20"
    by (simp add: round_half_away_def)
  then show ?thesis
    by (simp add: decimal_20_8_def Let_def)
qed

lemma example_overflow_bars:
  "dxy_bars exact_math example_overflow 0 120000000 = [(0, Some 50.14348112), (60000000, None)]"
proof -
  have v: "valid_tuple (fx_at example_overflow 0)" "valid_tuple (fx_at example_overflow 60000000)"
    by (simp_all add: valid_tuple_def sql_gt_def fx_at_def component_rows_at_def pivot_def
          example_overflow_def example_defs)
  have base: "base_timestamps example_overflow 0 120000000 = [0, 60000000]"
    by (simp add: base_timestamps_def component_rows_def example_overflow_def example_defs)
  have p0: "dxy_price exact_math (fx_at example_overflow 0) = Some 50.14348112"
    by (simp add: dxy_price_def dxy_formula_def exact_math_def decimal_20_8_def round_half_away_def
          fx_at_def component_rows_at_def pivot_def example_overflow_def example_defs)
  have "dxy_formula exact_math (the (eurusd (fx_at example_overflow 60000000)))
          (the (usdjpy (fx_at example_overflow 60000000))) (the (gbpusd (fx_at example_overflow 60000000)))
          (the (usdcad (fx_at example_overflow 60000000))) (the (usdsek (fx_at example_overflow 60000000)))
          (the (usdchf (fx_at example_overflow 60000000)))
        = 50.14348112 * exp (- 0.576 * ln (1 / 10 ^ 30))"
    by (simp add: dxy_formula_def exact_math_def
          fx_at_def component_rows_at_def pivot_def example_overflow_def example_defs)
  then have p1: "dxy_price exact_math (fx_at example_overflow 60000000) = None"
    by (simp only: dxy_price_def overflow_price)
  from v have "all_components_valid example_overflow 0" "all_components_valid example_overflow 60000000"
    by (simp_all only: valid_fx_at)
  with base p0 p1 show ?thesis
    by (simp add: dxy_bars_eq)
qed

text \<open>
  C5 (as stated) fails: at timestamp 0 all six components are valid, yet the call writes
  no index bar there, because the price of the next minute overflows DECIMAL(20,8) and the
  call fails as a whole.
\<close>

theorem calc_overflow_rolls_back_counterexample:
  "all_components_valid example_overflow 0
   \<and> calc_dxy_range_1m exact_math example_overflow 0 120000000 1 99
       = (Failed ''numeric field overflow'', example_overflow)
   \<and> dxy_key 0 \<notin> set (map bar_key example_overflow)"
proof -
  have "valid_tuple (fx_at example_overflow 0)"
    by (simp add: valid_tuple_def sql_gt_def fx_at_def component_rows_at_def pivot_def
          example_overflow_def example_defs)
  then have "all_components_valid example_overflow 0"
    by (simp only: valid_fx_at)
  moreover have "calc_dxy_range_1m exact_math example_overflow 0 120000000 1 99
       = (Failed ''numeric field overflow'', example_overflow)"
    by (simp add: calc_dxy_range_1m_def example_overflow_bars)
  moreover have "dxy_key 0 \<notin> set (map bar_key example_overflow)"
    by (simp add: example_overflow_def example_defs bar_key_def dxy_key_def)
  ultimately show ?thesis by blast
qed

section \<open>Re-invocation\<close>

lemma distinct_calc:
  "distinct (map bar_key data_bars) \<Longrightarrow>
     distinct (map bar_key (snd (calc_dxy_range_1m pg data_bars f t v now)))"
  using calc_table[of pg data_bars f t v now] distinct_upserted by auto

text \<open>The four prices of every row under the key of a timestamp the call has written.\<close>

lemma written_ohlc:
  assumes "tbl = fst (upserted data_bars (dxy_rows pg data_bars f t v now))"
    and "b \<in> set tbl" "bar_key b = dxy_key ts"
    and "f \<le> ts" "ts < t" "all_components_valid data_bars ts"
  shows "open_col b = dxy_price pg (fx_at data_bars ts) \<and> high b = dxy_price pg (fx_at data_bars ts)
       \<and> low b = dxy_price pg (fx_at data_bars ts) \<and> close b = dxy_price pg (fx_at data_bars ts)"
  using written_row_columns[OF written_row[OF assms]] by simp

text \<open>
  C6. On a table with unique keys, after a successful call, a second call with the same
  derivation version over any range (the component rows are the same, since the call does
  not write them) leaves the keys unique, and every index row the first call wrote is
  still there with the same open, high, low and close; no row under its key has other
  prices.
\<close>

theorem calc_rerun_keeps_rows:
  assumes uniq: "distinct (map bar_key data_bars)"
    and first: "calc_dxy_range_1m pg data_bars f1 t1 v now1 = (Succeeded i1 u1 s1 v1, tbl1)"
    and second: "calc_dxy_range_1m pg tbl1 f2 t2 v now2 = (res2, tbl2)"
  shows "distinct (map bar_key tbl2)
       \<and> (\<forall>b1 \<in> set tbl1. bar_key b1 \<in> set (map bar_key (dxy_rows pg data_bars f1 t1 v now1)) \<longrightarrow>
            (\<exists>b2 \<in> set tbl2. bar_key b2 = bar_key b1)
            \<and> (\<forall>b2 \<in> set tbl2. bar_key b2 = bar_key b1 \<longrightarrow>
                 open_col b2 = open_col b1 \<and> high b2 = high b1
                 \<and> low b2 = low b1 \<and> close b2 = close b1))"
proof -
  have t1: "tbl1 = snd (calc_dxy_range_1m pg data_bars f1 t1 v now1)"
    by (simp add: first)
  have t2: "tbl2 = snd (calc_dxy_range_1m pg tbl1 f2 t2 v now2)"
    by (simp add: second)
  have up1: "tbl1 = fst (upserted data_bars (dxy_rows pg data_bars f1 t1 v now1))"
    by (rule calc_success(3)[OF first])
  have fx: "fx_at tbl1 = fx_at data_bars"
    unfolding t1 by (rule ext) (rule fx_at_calc)
  have valid: "all_components_valid tbl1 ts = all_components_valid data_bars ts" for ts
    unfolding t1 by (rule all_components_valid_calc)
  have d1: "distinct (map bar_key tbl1)"
    unfolding t1 using uniq by (rule distinct_calc)
  then have d2: "distinct (map bar_key tbl2)"
    unfolding t2 by (rule distinct_calc)
  { fix b1 assume b1: "b1 \<in> set tbl1"
      and w: "bar_key b1 \<in> set (map bar_key (dxy_rows pg data_bars f1 t1 v now1))"
    from w obtain ts where k: "bar_key b1 = dxy_key ts"
      by (auto simp: dxy_rows_keys)
    with w have ts: "f1 \<le> ts" "ts < t1" "all_components_valid data_bars ts"
      by (simp_all only: dxy_key_in_rows)
    have p1: "open_col b1 = dxy_price pg (fx_at data_bars ts) \<and> high b1 = dxy_price pg (fx_at data_bars ts)
       \<and> low b1 = dxy_price pg (fx_at data_bars ts) \<and> close b1 = dxy_price pg (fx_at data_bars ts)"
      using written_ohlc[OF up1 b1 k ts] .
    from calc_table[of pg tbl1 f2 t2 v now2]
    have "(\<exists>b2 \<in> set tbl2. bar_key b2 = bar_key b1)
            \<and> (\<forall>b2 \<in> set tbl2. bar_key b2 = bar_key b1 \<longrightarrow>
                 open_col b2 = open_col b1 \<and> high b2 = high b1
                 \<and> low b2 = low b1 \<and> close b2 = close b1)"
    proof
      assume "snd (calc_dxy_range_1m pg tbl1 f2 t2 v now2) = tbl1"
      then have same: "tbl2 = tbl1" by (simp add: t2)
      have "open_col b2 = open_col b1 \<and> high b2 = high b1 \<and> low b2 = low b1 \<and> close b2 = close b1"
        if "b2 \<in> set tbl1" "bar_key b2 = bar_key b1" for b2
        using written_ohlc[OF up1 that(1) that(2)[unfolded k] ts] p1 by simp
      with b1 same show ?thesis by blast
    next
      assume "snd (calc_dxy_range_1m pg tbl1 f2 t2 v now2)
                = fst (upserted tbl1 (dxy_rows pg tbl1 f2 t2 v now2))"
      then have up2: "tbl2 = fst (upserted tbl1 (dxy_rows pg tbl1 f2 t2 v now2))"
        by (simp add: t2)
      have ex: "\<exists>b2 \<in> set tbl2. bar_key b2 = bar_key b1"
      proof -
        from b1 have "bar_key b1 \<in> set (map bar_key tbl2)"
          unfolding up2 set_keys_upserted by simp
        then show ?thesis by auto
      qed
      have "open_col b2 = open_col b1 \<and> high b2 = high b1 \<and> low b2 = low b1 \<and> close b2 = close b1"
        if b2: "b2 \<in> set tbl2" "bar_key b2 = bar_key b1" for b2
      proof (cases "f2 \<le> ts \<and> ts < t2")
        case True
        then have "f2 \<le> ts" "ts < t2" by simp_all
        moreover have "all_components_valid tbl1 ts"
          using ts(3) valid by simp
        ultimately show ?thesis
          using written_ohlc[OF up2 b2(1) b2(2)[unfolded k]] p1 fx by simp
      next
        case False
        then have "dxy_key ts \<notin> set (map bar_key (dxy_rows pg tbl1 f2 t2 v now2))"
          by (simp only: dxy_key_in_rows) blast
        then have "filter (\<lambda>b. bar_key b = dxy_key ts) tbl2 = filter (\<lambda>b. bar_key b = dxy_key ts) tbl1"
          unfolding up2 by (rule other_key_upserted)
        with b2 k have "b2 \<in> set tbl1"
          using member_filter_eq by fastforce
        from written_ohlc[OF up1 this b2(2)[unfolded k] ts] p1
        show ?thesis by simp
      qed
      with ex show ?thesis by blast
    qed }
  with d2 show ?thesis by blast
qed

lemma example_first_call:
  "calc_dxy_range_1m exact_math example_components 0 60000000 1 99
     = (Succeeded 1 0 0 1, example_components @ [dxy_row 1 99 (0, Some 50.14348112)])"
  by (simp add: example_defs calc_eval_defs)

lemma example_second_call:
  "calc_dxy_range_1m exact_math (example_components @ [dxy_row 1 99 (0, Some 50.14348112)]) 0 120000000 1 100
     = (Succeeded 0 1 0 1, example_components @ [dxy_row 1 100 (0, Some 50.14348112)])"
  by (simp add: example_defs calc_eval_defs)

lemma example_distinct: "distinct (map bar_key example_components)"
  by (simp add: example_defs bar_key_def)

theorem calc_rerun_keeps_rows_witness:
  "distinct (map bar_key example_components)
   \<and> calc_dxy_range_1m exact_math example_components 0 60000000 1 99
       = (Succeeded 1 0 0 1, example_components @ [dxy_row 1 99 (0, Some 50.14348112)])
   \<and> calc_dxy_range_1m exact_math (example_components @ [dxy_row 1 99 (0, Some 50.14348112)]) 0 120000000 1 100
       = (Succeeded 0 1 0 1, example_components @ [dxy_row 1 100 (0, Some 50.14348112)])
   \<and> distinct (map bar_key (example_components @ [dxy_row 1 100 (0, Some 50.14348112)]))
   \<and> close (dxy_row 1 100 (0, Some 50.14348112)) = close (dxy_row 1 99 (0, Some 50.14348112))"
proof -
  have w: "bar_key (dxy_row 1 99 (0, Some 50.14348112))
             \<in> set (map bar_key (dxy_rows exact_math example_components 0 60000000 1 99))"
    by (simp only: bar_key_dxy_row fst_conv dxy_key_in_rows)
       (simp add: all_components_valid_def component_valid_def example_defs)
  from calc_rerun_keeps_rows[OF example_distinct example_first_call example_second_call] w
  have "distinct (map bar_key (example_components @ [dxy_row 1 100 (0, Some 50.14348112)]))"
    and "\<forall>b2 \<in> set (example_components @ [dxy_row 1 100 (0, Some 50.14348112)]).
         bar_key b2 = bar_key (dxy_row 1 99 (0, Some 50.14348112))
           \<longrightarrow> close b2 = close (dxy_row 1 99 (0, Some 50.14348112))"
    by simp_all
  then show ?thesis
    using example_distinct example_first_call example_second_call
    by (simp add: bar_key_dxy_row)
qed

section \<open>Index bars and the enhanced OHLC check\<close>

lemma flat_bar_filters:
  assumes "open_col b = Some p" "high b = Some p" "low b = Some p" "close b = Some p"
  shows "is_zero_range b" "\<not> is_high_less_than_low b" "\<not> is_open_out_of_range b"
        "\<not> is_close_out_of_range b" "\<not> is_excessive_spread b"
  using assms
  by (simp_all add: is_zero_range_def is_high_less_than_low_def is_open_out_of_range_def
        is_close_out_of_range_def is_excessive_spread_def sql_gt_def nullif_def)

text \<open>
  C10 (as amended). Every row under the key of a timestamp a successful call has written
  has open = high = low = close = the computed price and source \<open>synthetic\<close>; its volume
  is 0 when the call inserted it and the stored volume when the call updated it. The row
  passes the zero-range filter of the enhanced check and none of its other four filters,
  and it is counted in \<open>zero_range_bars\<close> of the aggregate row of DXY for every window that
  contains it.
\<close>

theorem calc_rows_zero_range:
  assumes ok: "calc_dxy_range_1m pg data_bars p_from_utc p_to_utc v now = (Succeeded i u s v', tbl)"
    and b: "b \<in> set tbl" "bar_key b = dxy_key ts"
    and ts: "p_from_utc \<le> ts" "ts < p_to_utc" "all_components_valid data_bars ts"
  shows "(\<exists>p. dxy_price pg (fx_at data_bars ts) = Some p \<and> open_col b = Some p \<and> high b = Some p
              \<and> low b = Some p \<and> close b = Some p)
       \<and> source b = ''synthetic''
       \<and> (dxy_key ts \<notin> set (map bar_key data_bars) \<longrightarrow> vol b = Some 0)
       \<and> (dxy_key ts \<in> set (map bar_key data_bars) \<longrightarrow>
            (\<exists>old \<in> set data_bars. bar_key old = dxy_key ts \<and> vol b = vol old))
       \<and> is_zero_range b \<and> \<not> is_high_less_than_low b \<and> \<not> is_open_out_of_range b
       \<and> \<not> is_close_out_of_range b \<and> \<not> is_excessive_spread b
       \<and> (\<forall>since. since \<le> ts \<longrightarrow>
            0 < zero_range_bars (ohlc_counts (window_rows tbl ''1m'' since) ''DXY''))"
proof -
  note c = calc_success[OF ok]
  let ?n = "dxy_row v now (ts, dxy_price pg (fx_at data_bars ts))"
  have "(ts, dxy_price pg (fx_at data_bars ts)) \<in> set (dxy_bars pg data_bars p_from_utc p_to_utc)"
    using dxy_rows_member[OF ts, of v now pg] by (auto simp: dxy_rows_def dxy_row_def dxy_bars_eq)
  with c(2) obtain p where p: "dxy_price pg (fx_at data_bars ts) = Some p"
    by fastforce
  note row = written_row[OF c(3) b ts]
  note cols = written_row_columns[OF row]
  have flat: "open_col b = Some p" "high b = Some p" "low b = Some p" "close b = Some p"
    using cols p by simp_all
  have vol_new: "vol b = Some 0" if "dxy_key ts \<notin> set (map bar_key data_bars)"
  proof -
    from that have "\<not> (\<exists>old \<in> set data_bars. bar_key old = dxy_key ts)"
      by force
    with row have "b = ?n" by blast
    then show ?thesis by (simp add: dxy_row_def)
  qed
  have vol_old: "\<exists>old \<in> set data_bars. bar_key old = dxy_key ts \<and> vol b = vol old"
    if "dxy_key ts \<in> set (map bar_key data_bars)"
    using row that by (auto simp: do_update_def)
  have counted: "0 < zero_range_bars (ohlc_counts (window_rows tbl ''1m'' since) ''DXY'')"
    if "since \<le> ts" for since
  proof -
    from b(2) have "canonical_symbol b = ''DXY''" "timeframe b = ''1m''" "ts_utc b = ts"
      by (simp_all add: bar_key_def dxy_key_def)
    with b(1) that flat_bar_filters(1)[OF flat]
    have "b \<in> set (filter is_zero_range (filter (\<lambda>b. canonical_symbol b = ''DXY'')
                     (window_rows tbl ''1m'' since)))"
      by (simp add: window_rows_def)
    then have "0 < length (filter is_zero_range (filter (\<lambda>b. canonical_symbol b = ''DXY'')
                     (window_rows tbl ''1m'' since)))"
      by (rule length_pos_if_in_set)
    then show ?thesis
      by (simp only: ohlc_counts_def Let_def ohlc_row.simps)
  qed
  from p flat cols(5) vol_new vol_old flat_bar_filters[OF flat] counted
  show ?thesis by blast
qed

lemma example_with_dxy_call:
  "calc_dxy_range_1m exact_math example_with_dxy 0 60000000 1 99
     = (Succeeded 0 1 0 1,
        example_components @
          [(example_bar ''DXY'' ''1m'' 0 7)
             \<lparr>open_col := Some 50.14348112, high := Some 50.14348112, low := Some 50.14348112,
              close := Some 50.14348112, source := ''synthetic'', ingested_at := 99\<rparr>])"
  by (simp add: example_with_dxy_def example_defs calc_eval_defs)

text \<open>
  C10 (as stated) fails: a row the call writes by updating a stored index bar keeps the
  stored volume, here 5.
\<close>

theorem calc_update_keeps_volume_counterexample:
  "fst (calc_dxy_range_1m exact_math example_with_dxy 0 60000000 1 99) = Succeeded 0 1 0 1
   \<and> map vol (filter (\<lambda>b. bar_key b = dxy_key 0)
                      (snd (calc_dxy_range_1m exact_math example_with_dxy 0 60000000 1 99))) = [Some 5]"
  by (simp add: example_with_dxy_call) (simp add: example_defs bar_key_def dxy_key_def)

theorem calc_rows_zero_range_witness:
  "calc_dxy_range_1m exact_math example_components 0 60000000 1 99
       = (Succeeded 1 0 0 1, example_components @ [dxy_row 1 99 (0, Some 50.14348112)])
   \<and> all_components_valid example_components 0
   \<and> dxy_key 0 \<notin> set (map bar_key example_components)
   \<and> vol (dxy_row 1 99 (0, Some 50.14348112)) = Some 0
   \<and> is_zero_range (dxy_row 1 99 (0, Some 50.14348112))
   \<and> 0 < zero_range_bars
           (ohlc_counts (window_rows (example_components @ [dxy_row 1 99 (0, Some 50.14348112)]) ''1m'' 0)
                        ''DXY'')"
proof -
  have v: "all_components_valid example_components 0"
    by (simp add: all_components_valid_def component_valid_def example_defs)
  have k: "dxy_key 0 \<notin> set (map bar_key example_components)"
    by (simp add: example_defs bar_key_def dxy_key_def)
  have m: "dxy_row 1 99 (0, Some 50.14348112)
             \<in> set (example_components @ [dxy_row 1 99 (0, Some 50.14348112)])"
    by simp
  have "bar_key (dxy_row 1 99 (0, Some 50.14348112)) = dxy_key 0"
    by (simp add: bar_key_dxy_row)
  from calc_rows_zero_range[OF example_first_call m this _ _ v] k v example_first_call
  show ?thesis by simp
qed

section \<open>Aggregation coverage\<close>

lemma roll_count:
  "length (filter (\<lambda>(s', t). s' = s \<and> bar_5m_ts t = k) (src_1m data_bars since))
     = length (children_5m data_bars since s k)"
proof -
  have "filter (\<lambda>(s', t). s' = s \<and> bar_5m_ts t = k) (src_1m data_bars since)
          = map (\<lambda>b. (canonical_symbol b, ts_utc b)) (children_5m data_bars since s k)"
    unfolding src_1m_def children_5m_def filter_map filter_filter comp_def
    by (simp add: conj_ac cong: filter_cong)
  then show ?thesis by simp
qed

lemma roll_eq:
  "roll data_bars since =
     map (\<lambda>(s, k). \<lparr>roll_symbol = s, roll_bar_5m_ts = k,
                     n_1m = int (length (children_5m data_bars since s k))\<rparr>)
         (remdups (map (\<lambda>(s, t). (s, bar_5m_ts t)) (src_1m data_bars since)))"
  by (simp add: roll_def Let_def roll_count)

lemma roll_member:
  assumes "children_5m data_bars since s k \<noteq> []"
  shows "\<lparr>roll_symbol = s, roll_bar_5m_ts = k,
          n_1m = int (length (children_5m data_bars since s k))\<rparr> \<in> set (roll data_bars since)"
proof -
  from assms obtain b where "b \<in> set (children_5m data_bars since s k)"
    by (cases "children_5m data_bars since s k") auto
  then have "(s, k) \<in> set (map (\<lambda>(s, t). (s, bar_5m_ts t)) (src_1m data_bars since))"
    by (force simp: children_5m_def src_1m_def)
  then show ?thesis
    unfolding roll_eq by force
qed

lemma coverage_rows:
  "check_agg_consistency_1m_to_5m_coverage data_bars since m strict =
     map (\<lambda>s. \<lparr>cov_symbol = s,
               bad_5m_bars = length (filter (\<lambda>r. roll_symbol r = s \<and> n_1m r < m) (roll data_bars since)),
               partial_5m_bars = length (filter (\<lambda>r. roll_symbol r = s \<and> n_1m r < m \<and> n_1m r > 0 \<and> n_1m r < 5)
                                                (roll data_bars since)),
               missing_5m_bars = length (filter (\<lambda>r. roll_symbol r = s \<and> n_1m r < m \<and> n_1m r = 0)
                                                (roll data_bars since))\<rparr>)
         (remdups (map roll_symbol (below_min_required data_bars since m)))"
  unfolding check_agg_consistency_1m_to_5m_coverage_def below_min_required_def Let_def filter_filter
  by (rule map_cong[OF refl]) (auto intro!: arg_cong[where f = length] filter_cong)

text \<open>
  C2 (as amended). A 5-minute bucket with exactly three child 1-minute bars is among the
  buckets the check keeps, and is counted in \<open>bad_5m_bars\<close> and \<open>partial_5m_bars\<close> of its
  symbol's row, when the check is called with its defaults (\<open>min_required_1m = 5\<close>,
  \<open>strict = True\<close>); called with \<open>min_required_1m = 3\<close> and \<open>strict = False\<close>, as
  \<open>run_phase_a\<close> calls it, the bucket is not kept, and every row's \<open>bad_5m_bars\<close> counts the
  buckets with fewer than three children only.
\<close>

theorem coverage_three_of_five:
  assumes "length (children_5m data_bars since s k) = 3"
  shows "\<lparr>roll_symbol = s, roll_bar_5m_ts = k, n_1m = 3\<rparr> \<in> set (below_min_required data_bars since 5)
       \<and> (\<exists>row \<in> set (check_agg_consistency_1m_to_5m_coverage data_bars since 5 True).
             cov_symbol row = s \<and> 0 < bad_5m_bars row \<and> 0 < partial_5m_bars row)
       \<and> \<lparr>roll_symbol = s, roll_bar_5m_ts = k, n_1m = 3\<rparr> \<in> set (roll data_bars since)
       \<and> \<lparr>roll_symbol = s, roll_bar_5m_ts = k, n_1m = 3\<rparr> \<notin> set (below_min_required data_bars since 3)
       \<and> (\<forall>row \<in> set (check_agg_consistency_1m_to_5m_coverage data_bars since 3 False).
             bad_5m_bars row
               = length (filter (\<lambda>r. roll_symbol r = cov_symbol row \<and> n_1m r < 3) (roll data_bars since)))"
proof -
  let ?r = "\<lparr>roll_symbol = s, roll_bar_5m_ts = k, n_1m = 3\<rparr>"
  from assms have "children_5m data_bars since s k \<noteq> []" by auto
  from roll_member[OF this] assms have r: "?r \<in> set (roll data_bars since)" by simp
  then have kept: "?r \<in> set (below_min_required data_bars since 5)"
    by (simp add: below_min_required_def)
  have not_kept: "?r \<notin> set (below_min_required data_bars since 3)"
    by (simp add: below_min_required_def)
  let ?row = "\<lparr>cov_symbol = s,
               bad_5m_bars = length (filter (\<lambda>r. roll_symbol r = s \<and> n_1m r < 5) (roll data_bars since)),
               partial_5m_bars = length (filter (\<lambda>r. roll_symbol r = s \<and> n_1m r < 5 \<and> n_1m r > 0 \<and> n_1m r < 5)
                                                (roll data_bars since)),
               missing_5m_bars = length (filter (\<lambda>r. roll_symbol r = s \<and> n_1m r < 5 \<and> n_1m r = 0)
                                                (roll data_bars since))\<rparr>"
  from kept have "s \<in> set (remdups (map roll_symbol (below_min_required data_bars since 5)))"
    by force
  then have "?row \<in> set (check_agg_consistency_1m_to_5m_coverage data_bars since 5 True)"
    unfolding coverage_rows set_map by (rule imageI)
  moreover have "0 < bad_5m_bars ?row" "0 < partial_5m_bars ?row"
  proof -
    from r have "?r \<in> set (filter (\<lambda>r. roll_symbol r = s \<and> n_1m r < 5) (roll data_bars since))"
      and "?r \<in> set (filter (\<lambda>r. roll_symbol r = s \<and> n_1m r < 5 \<and> n_1m r > 0 \<and> n_1m r < 5)
                             (roll data_bars since))"
      by simp_all
    then show "0 < bad_5m_bars ?row" "0 < partial_5m_bars ?row"
      by (simp_all only: coverage_row.simps length_pos_if_in_set)
  qed
  ultimately have reported: "\<exists>row \<in> set (check_agg_consistency_1m_to_5m_coverage data_bars since 5 True).
             cov_symbol row = s \<and> 0 < bad_5m_bars row \<and> 0 < partial_5m_bars row"
    by (intro bexI[of _ ?row]) simp_all
  have counts: "\<forall>row \<in> set (check_agg_consistency_1m_to_5m_coverage data_bars since 3 False).
             bad_5m_bars row
               = length (filter (\<lambda>r. roll_symbol r = cov_symbol row \<and> n_1m r < 3) (roll data_bars since))"
    unfolding coverage_rows by auto
  from kept reported r not_kept counts show ?thesis by blast
qed

lemmas time_defs = usec_per_minute_def usec_per_hour_def date_trunc_hour_def extract_minute_def
  make_interval_mins_def bar_5m_ts_def

lemmas coverage_eval_defs = check_agg_consistency_1m_to_5m_coverage_def below_min_required_def
  roll_def src_1m_def example_three_of_five_def example_bar_def

theorem coverage_three_of_five_witness:
  "length (children_5m example_three_of_five 0 ''X'' 0) = 3
   \<and> check_agg_consistency_1m_to_5m_coverage example_three_of_five 0 5 True
       = [\<lparr>cov_symbol = ''X'', bad_5m_bars = 1, partial_5m_bars = 1, missing_5m_bars = 0\<rparr>]
   \<and> \<lparr>roll_symbol = ''X'', roll_bar_5m_ts = 0, n_1m = 3\<rparr> \<in> set (below_min_required example_three_of_five 0 5)
   \<and> \<lparr>roll_symbol = ''X'', roll_bar_5m_ts = 0, n_1m = 3\<rparr> \<notin> set (below_min_required example_three_of_five 0 3)"
proof -
  have h: "length (children_5m example_three_of_five 0 ''X'' 0) = 3"
    by (simp add: children_5m_def example_three_of_five_def example_bar_def time_defs)
  have "check_agg_consistency_1m_to_5m_coverage example_three_of_five 0 5 True
       = [\<lparr>cov_symbol = ''X'', bad_5m_bars = 1, partial_5m_bars = 1, missing_5m_bars = 0\<rparr>]"
    by (simp add: coverage_eval_defs time_defs)
  with coverage_three_of_five[OF h] h show ?thesis by simp
qed

text \<open>
  C2 (as stated) fails: with \<open>strict = True\<close> and a floor of 3 the bucket of three is not
  reported, so strict mode does not require all five children; the relaxed call returns no
  row for the bucket, so nothing carries a quality score for it; and the flag
  \<^verbatim>\<open>bad_5m_coverage_strict\<close> of Phase A, fed by the relaxed call, stays false.
\<close>

theorem coverage_strict_flag_counterexample:
  "check_agg_consistency_1m_to_5m_coverage example_three_of_five 0 3 True = []
   \<and> check_agg_consistency_1m_to_5m_coverage example_three_of_five 0 3 False = []
   \<and> map_sum id (\<lambda>r. flag_of (a_problem_flags r) ''bad_5m_coverage_strict'')
        (run_phase_a (clean_a\<lparr>a_agg_cov_5m := phase_a_agg_cov_5m example_three_of_five 0\<rparr>))
       = Inr (Some False)"
proof -
  have c: "check_agg_consistency_1m_to_5m_coverage example_three_of_five 0 3 strict = []" for strict
    by (simp add: coverage_eval_defs time_defs)
  then show ?thesis
    by (simp add: phase_a_agg_cov_5m_def run_phase_a_def clean_a_def one_row_def
          get_active_assets_def qdf_def safe_check_def result_flag_def Let_def flag_of_def)
qed

section \<open>Monotonicity\<close>

lemma non_monotonic_Cons:
  "non_monotonic (x # xs) =
     filter (\<lambda>(t, prev). case prev of None \<Rightarrow> False | Some p \<Rightarrow> t \<le> p)
            (zip xs (map Some (x # xs)))"
  by (simp add: non_monotonic_def with_lag_def)

text \<open>In an ascending list a timestamp is not above its predecessor only when it repeats it.\<close>

lemma repeats_in_sorted:
  "sorted (x # xs) \<Longrightarrow>
     length (filter (\<lambda>(t, prev). case prev of None \<Rightarrow> False | Some p \<Rightarrow> t \<le> p)
                    (zip xs (map Some (x # xs))))
       = length (x # xs) - card (set (x # xs))"
proof (induction xs arbitrary: x)
  case Nil
  then show ?case by simp
next
  case (Cons y ys)
  from Cons.prems have xy: "x \<le> y" and s: "sorted (y # ys)" by simp_all
  note ih = Cons.IH[OF s]
  have le: "card (set (y # ys)) \<le> length (y # ys)" by (rule card_length)
  show ?case
  proof (cases "y \<le> x")
    case True
    with xy have "x = y" by simp
    with ih le show ?thesis by (simp add: insert_absorb)
  next
    case False
    with s have "x \<notin> set (y # ys)" by auto
    then have "card (set (x # y # ys)) = Suc (card (set (y # ys)))" by simp
    with ih False show ?thesis by simp
  qed
qed

lemma length_non_monotonic:
  "sorted xs \<Longrightarrow> length (non_monotonic xs) = length xs - card (set xs)"
proof (cases xs)
  case Nil
  then show ?thesis by (simp add: non_monotonic_def with_lag_def)
next
  case (Cons x xs')
  assume "sorted xs"
  with Cons show ?thesis
    using repeats_in_sorted[of x xs'] by (simp only: non_monotonic_Cons)
qed

lemma non_monotonic_ordered:
  "length (non_monotonic (ordered_ts rows s))
     = length (map ts_utc (filter (\<lambda>b. canonical_symbol b = s) rows))
       - card (set (map ts_utc (filter (\<lambda>b. canonical_symbol b = s) rows)))"
  unfolding ordered_ts_def by (simp add: length_non_monotonic)

lemma non_monotonic_empty_iff:
  "non_monotonic (ordered_ts rows s) = []
     \<longleftrightarrow> distinct (map ts_utc (filter (\<lambda>b. canonical_symbol b = s) rows))"
proof -
  let ?ts = "map ts_utc (filter (\<lambda>b. canonical_symbol b = s) rows)"
  have "non_monotonic (ordered_ts rows s) = [] \<longleftrightarrow> length (non_monotonic (ordered_ts rows s)) = 0"
    by (simp only: length_0_conv)
  also have "\<dots> \<longleftrightarrow> length ?ts - card (set ?ts) = 0"
    by (simp only: non_monotonic_ordered)
  also have "\<dots> \<longleftrightarrow> card (set ?ts) = length ?ts"
    using card_length[of ?ts] by linarith
  also have "\<dots> \<longleftrightarrow> distinct ?ts"
    using card_distinct distinct_card by blast
  finally show ?thesis .
qed

text \<open>
  What the check does report: a symbol with two rows of the same \<open>ts_utc\<close> in the window,
  with the number of rows minus the number of distinct timestamps as its count. Ordered by
  \<open>ts_utc\<close>, a row is at or below its predecessor only when it repeats it.
\<close>

lemma repeats_reported:
  "((\<exists>row \<in> set (check_timestamp_monotonicity tbl tf since). mono_symbol row = s)
      \<longleftrightarrow> \<not> distinct (series_ts tbl tf since s))
   \<and> (\<forall>row \<in> set (check_timestamp_monotonicity tbl tf since).
         non_monotonic_count row
           = length (series_ts tbl tf since (mono_symbol row))
             - card (set (series_ts tbl tf since (mono_symbol row))))"
proof -
  let ?rows = "window_rows tbl tf since"
  have rep: "set (check_timestamp_monotonicity tbl tf since)
        = (\<lambda>s. \<lparr>mono_symbol = s, non_monotonic_count = length (non_monotonic (ordered_ts ?rows s))\<rparr>)
            ` {s \<in> set (map canonical_symbol ?rows). non_monotonic (ordered_ts ?rows s) \<noteq> []}"
    by (simp add: check_timestamp_monotonicity_def Let_def)
  have in_rows: "s \<in> set (map canonical_symbol ?rows)" if "\<not> distinct (series_ts tbl tf since s)"
  proof (rule ccontr)
    assume "s \<notin> set (map canonical_symbol ?rows)"
    then have "filter (\<lambda>b. canonical_symbol b = s) ?rows = []"
      by (auto simp: filter_empty_conv)
    with that show False by (simp add: series_ts_def)
  qed
  have a: "(\<exists>row \<in> set (check_timestamp_monotonicity tbl tf since). mono_symbol row = s)
      \<longleftrightarrow> \<not> distinct (series_ts tbl tf since s)"
    unfolding rep using in_rows
    by (auto simp: non_monotonic_empty_iff series_ts_def)
  have b: "\<forall>row \<in> set (check_timestamp_monotonicity tbl tf since).
         non_monotonic_count row
           = length (series_ts tbl tf since (mono_symbol row))
             - card (set (series_ts tbl tf since (mono_symbol row)))"
    unfolding rep series_ts_def by (auto simp: non_monotonic_ordered simp del: length_map set_map)
  from a b show ?thesis by blast
qed

lemmas monotonicity_eval_defs = check_timestamp_monotonicity_def window_rows_def ordered_ts_def
  non_monotonic_def with_lag_def example_bar_def

lemma example_same_ts_reported:
  "\<not> distinct (series_ts example_same_ts ''1m'' 0 ''X'')
   \<and> check_timestamp_monotonicity example_same_ts ''1m'' 0
       = [\<lparr>mono_symbol = ''X'', non_monotonic_count = 1\<rparr>]
   \<and> length (series_ts example_same_ts ''1m'' 0 ''X'')
       - card (set (series_ts example_same_ts ''1m'' 0 ''X'')) = 1"
proof -
  have c: "check_timestamp_monotonicity example_same_ts ''1m'' 0
       = [\<lparr>mono_symbol = ''X'', non_monotonic_count = 1\<rparr>]"
    by (simp add: monotonicity_eval_defs example_same_ts_def)
  have d: "\<not> distinct (series_ts example_same_ts ''1m'' 0 ''X'')"
    by (simp add: series_ts_def window_rows_def example_same_ts_def example_bar_def)
  from repeats_reported[of example_same_ts "''1m''" 0 "''X''"] c d
  show ?thesis by simp
qed

text \<open>
  C3 fails on the code: the check, documented as finding out-of-order data, returns no row
  for a series in which a bar is stored after a bar of the same symbol with a later
  timestamp. The series is ordered by \<open>ts_utc\<close> before neighbours are compared, so the test
  \<open>ts_utc <= prev_ts\<close> can hold only for a repeated timestamp.
\<close>

theorem monotonicity_misses_out_of_order:
  "ts_utc (example_out_of_order ! 1) < ts_utc (example_out_of_order ! 0)
   \<and> canonical_symbol (example_out_of_order ! 1) = canonical_symbol (example_out_of_order ! 0)
   \<and> timeframe (example_out_of_order ! 1) = timeframe (example_out_of_order ! 0)
   \<and> non_monotonic (map ts_utc example_out_of_order) = [(0, Some 60000000)]
   \<and> ordered_ts (window_rows example_out_of_order ''1m'' 0) ''X'' = [0, 60000000]
   \<and> check_timestamp_monotonicity example_out_of_order ''1m'' 0 = []"
  by (simp add: monotonicity_eval_defs example_out_of_order_def)

section \<open>Gap density\<close>

text \<open>
  C4 fails on the code for a timeframe other than \<open>1m\<close>: two consecutive 5-minute bars,
  exactly one bar interval apart, are counted as a gap event, because the threshold is one
  minute for every timeframe.
\<close>

theorem gap_density_5m_counts_regular_step:
  "gap_interval ''5m'' = usec_per_minute
   \<and> check_gap_density example_5m_series ''5m'' 0 None
       = [\<lparr>gap_symbol = ''X'', gap_events = 1, max_gap = 5 * usec_per_minute\<rparr>]"
  by (simp add: check_gap_density_def window_rows_def ordered_ts_def gaps_def with_lag_def
        sym_filter_def gap_interval_def usec_per_minute_def example_5m_series_def example_bar_def)

section \<open>Check isolation\<close>

lemmas run_defs = get_active_assets_def qdf_def safe_check_def result_flag_def

lemmas conn_defs = phase_a_calls_on_def qdf_conn_def check_by_qdf_def check_volume_integrity_def
  check_staleness_with_thresholds_def after_safe_check_def rollback_def

text \<open>
  A statement that fails inside \<open>qdf\<close> is rolled back there, and the calls after it find the
  connection ready: the frame of the failed check is empty and every answer of the
  database to a later check reaches the result.
\<close>

lemma qdf_conn_ready: "fst (qdf_conn st ans) = Ready"
  by (cases st; cases ans) (simp_all add: qdf_conn_def rollback_def)

lemma check_by_qdf_ready: "after_safe_check (check_by_qdf st ans) = Ready"
  using qdf_conn_ready[of st ans]
  by (cases "qdf_conn st ans") (simp add: check_by_qdf_def after_safe_check_def)

lemma check_by_qdf_frame:
  "snd (check_by_qdf Ready ans) = Inr (case ans of Rows rows \<Rightarrow> rows | SqlError msg \<Rightarrow> [])"
  by (cases ans) (simp_all add: check_by_qdf_def qdf_conn_def qdf_def)

text \<open>The staleness counts: 20 minutes is above both thresholds, 7 above the first, NULL above none.\<close>

lemma staleness_counts_example:
  "check_staleness_with_thresholds 5 15 Ready
     (Rows [staleness_row ''A'' (CReal 20), staleness_row ''B'' (CReal 7), staleness_row ''C'' CNull])
   = (Ready, Inr ([staleness_row ''A'' (CReal 20), staleness_row ''B'' (CReal 7), staleness_row ''C'' CNull],
                  \<lparr>warning = 2, critical = 1\<rparr>))"
  by (simp add: check_staleness_with_thresholds_def qdf_conn_def qdf_def exceeds_def staleness_row_def
        Let_def)

text \<open>
  A probe of the volume column that fails leaves the transaction aborted, and the price
  continuity check, which runs next, returns the empty frame whatever the database holds.
\<close>

lemma probe_failure_empties_price_jumps:
  assumes "q_volume_probe q = SqlError msg"
  shows "a_price_jumps (phase_a_calls_on w c q) = Inr []"
proof -
  have r: "after_safe_check (check_by_qdf st ans) = Ready" for st and ans :: "'r answer"
    by (cases st; cases ans)
       (simp_all add: check_by_qdf_def qdf_conn_def after_safe_check_def rollback_def)
  have v: "after_safe_check (check_volume_integrity Ready (q_volume_probe q) (q_volume_issues q)) = Aborted"
    by (simp add: assms check_volume_integrity_def after_safe_check_def)
  have a: "snd (check_by_qdf Aborted ans) = Inr []" for ans :: "row answer"
    by (simp add: check_by_qdf_def qdf_conn_def qdf_def)
  show ?thesis
    by (simp add: phase_a_calls_on_def Let_def r v a)
qed

text \<open>
  C7 fails on the code. On a bars table without the column \<^verbatim>\<open>volume\<close> the probe of
  \<^verbatim>\<open>check_volume_integrity\<close> fails and the check returns its empty frame without a rollback;
  the next check, \<^verbatim>\<open>check_price_continuity\<close>, then runs in the aborted transaction, its query
  is refused, and it returns the empty frame: the price jump the database would answer with
  is not reported and its flag is false. With the probe answered, the same jump is
  reported; and a query that fails inside \<^verbatim>\<open>qdf\<close>, here the one of the enhanced OHLC check,
  does not hide it.
\<close>

theorem volume_probe_hides_price_jumps:
  "q_price_jumps no_volume_column = Rows [jump_row]
   \<and> a_volume_issues (phase_a_calls_on 5 15 no_volume_column) = Inr []
   \<and> a_price_jumps (phase_a_calls_on 5 15 no_volume_column) = Inr []
   \<and> map_sum id (\<lambda>r. (da_price_continuity (a_data r), flag_of (a_problem_flags r) ''large_price_jumps'',
                       no_flag_set (a_problem_flags r)))
       (run_phase_a (phase_a_calls_on 5 15 no_volume_column)) = Inr ([], Some False, True)
   \<and> map_sum id (\<lambda>r. (da_price_continuity (a_data r), flag_of (a_problem_flags r) ''large_price_jumps''))
       (run_phase_a (phase_a_calls_on 5 15 jump_answers)) = Inr ([jump_row], Some True)
   \<and> map_sum id (\<lambda>r. (da_enhanced_ohlc_integrity (a_data r), da_price_continuity (a_data r),
                       flag_of (a_problem_flags r) ''large_price_jumps''))
       (run_phase_a (phase_a_calls_on 5 15
          (jump_answers\<lparr>q_enhanced_ohlc := SqlError ''relation data_bars does not exist''\<rparr>)))
       = Inr ([], [jump_row], Some True)"
  by (simp add: conn_defs run_phase_a_def run_defs no_volume_column_def jump_answers_def one_row_def
        staleness_row_def exceeds_def flag_of_def no_flag_set_def Let_def)

section \<open>Verdict\<close>

lemma all_ok_iff:
  "all_ok results \<longleftrightarrow>
     (\<forall>(phase_key, phase_result) \<in> set results.
        case phase_result of None \<Rightarrow> True | Some problem_flags \<Rightarrow> no_flag_set problem_flags)"
proof -
  have "fold (\<lambda>(phase_key, phase_result) ok.
             case phase_result of
               None \<Rightarrow> ok
             | Some problem_flags \<Rightarrow>
                 let problems = filter (\<lambda>(k, v). v) problem_flags in
                 if \<not> (problems = []) then False else ok) results acc
        \<longleftrightarrow> acc \<and> (\<forall>(phase_key, phase_result) \<in> set results.
               case phase_result of None \<Rightarrow> True | Some problem_flags \<Rightarrow> no_flag_set problem_flags)" for acc
  proof (induction results arbitrary: acc)
    case Nil
    then show ?case by simp
  next
    case (Cons p results)
    obtain phase_key phase_result where p: "p = (phase_key, phase_result)" by (cases p)
    have "filter (\<lambda>(k, v). v) flags = [] \<longleftrightarrow> no_flag_set flags" for flags :: "(string \<times> bool) list"
      by (auto simp: no_flag_set_def filter_empty_conv list_all_iff)
    with Cons.IH p show ?case by (cases phase_result) (auto simp: Let_def)
  qed
  then show ?thesis by (simp add: all_ok_def)
qed

lemma frame_safe_check: "frame (safe_check called) = (case called of Inr df \<Rightarrow> df | Inl e \<Rightarrow> [])"
  by (cases called) (simp_all add: safe_check_def)

lemma run_phase_a_returns:
  "(\<exists>r. run_phase_a c = Inr r)
     \<longleftrightarrow> (\<exists>active. get_active_assets (a_registry c) = Inr active) \<and> (\<exists>p. a_staleness c = Inr p)"
  by (cases "get_active_assets (a_registry c)"; cases "a_staleness c")
     (auto simp: run_phase_a_def safe_check_def Let_def split: prod.splits)

lemma run_phase_b_returns:
  "(\<exists>r. run_phase_b c = Inr r) \<longleftrightarrow> (\<exists>active. get_active_assets (b_registry c) = Inr active)"
  by (cases "get_active_assets (b_registry c)") (auto simp: run_phase_b_def Let_def)

text \<open>The problem flags of Phase A, from what its checks returned.\<close>

lemma phase_a_flags:
  assumes "run_phase_a c = Inr r"
  shows "\<exists>freshness counts. a_staleness c = Inr (freshness, counts) \<and> a_problem_flags r =
    [(''duplicates_data_bars_1m'', frame (safe_check (a_dup_data c)) \<noteq> []),
     (''duplicates_derived'', frame (safe_check (a_dup_derived c)) \<noteq> []),
     (''misaligned_5m'', \<exists>row \<in> set (frame (safe_check (a_align_5m c))). 0 < misaligned_count row),
     (''misaligned_1h'', \<exists>row \<in> set (frame (safe_check (a_align_1h c))). 0 < misaligned_count row),
     (''misaligned_1d'', \<exists>row \<in> set (frame (safe_check (a_align_1d c))). 0 < misaligned_count row),
     (''bad_5m_coverage_strict'', \<exists>row \<in> set (frame (safe_check (a_agg_cov_5m c))). 0 < bad_5m_bars row),
     (''bad_1h_coverage_strict'', \<exists>row \<in> set (frame (safe_check (a_agg_cov_1h c))). 0 < bad_1h_bars row),
     (''dxy_missing_data'',
        frame (safe_check (a_dxy_counts_1m c)) = [] \<or> frame (safe_check (a_dxy_counts_5m c)) = []
        \<or> frame (safe_check (a_dxy_counts_1h c)) = [] \<or> frame (safe_check (a_dxy_counts_1d c)) = []),
     (''non_monotonic_timestamps'', frame (safe_check (a_monotonic_1m c)) \<noteq> []),
     (''future_timestamps'', frame (safe_check (a_future_ts_1m c)) \<noteq> []),
     (''enhanced_ohlc_issues'', frame (safe_check (a_enhanced_ohlc c)) \<noteq> []),
     (''volume_issues'', frame (safe_check (a_volume_issues c)) \<noteq> []),
     (''large_price_jumps'', frame (safe_check (a_price_jumps c)) \<noteq> []),
     (''cross_timeframe_mismatch'', frame (safe_check (a_cross_tf_consistency c)) \<noteq> []),
     (''staleness_warning'', 0 < warning counts),
     (''staleness_critical'', 0 < critical counts)]"
proof -
  from assms obtain active fr sc where
    reg: "get_active_assets (a_registry c) = Inr active" and st: "a_staleness c = Inr (fr, sc)"
    using run_phase_a_returns[of c] by fastforce
  from st have u: "unpack_pair (safe_check (a_staleness c)) = Inr (fr, sc)"
    by (simp add: safe_check_def)
  from assms have "a_problem_flags r =
    [(''duplicates_data_bars_1m'', frame (safe_check (a_dup_data c)) \<noteq> []),
     (''duplicates_derived'', frame (safe_check (a_dup_derived c)) \<noteq> []),
     (''misaligned_5m'', \<exists>row \<in> set (frame (safe_check (a_align_5m c))). 0 < misaligned_count row),
     (''misaligned_1h'', \<exists>row \<in> set (frame (safe_check (a_align_1h c))). 0 < misaligned_count row),
     (''misaligned_1d'', \<exists>row \<in> set (frame (safe_check (a_align_1d c))). 0 < misaligned_count row),
     (''bad_5m_coverage_strict'', \<exists>row \<in> set (frame (safe_check (a_agg_cov_5m c))). 0 < bad_5m_bars row),
     (''bad_1h_coverage_strict'', \<exists>row \<in> set (frame (safe_check (a_agg_cov_1h c))). 0 < bad_1h_bars row),
     (''dxy_missing_data'',
        frame (safe_check (a_dxy_counts_1m c)) = [] \<or> frame (safe_check (a_dxy_counts_5m c)) = []
        \<or> frame (safe_check (a_dxy_counts_1h c)) = [] \<or> frame (safe_check (a_dxy_counts_1d c)) = []),
     (''non_monotonic_timestamps'', frame (safe_check (a_monotonic_1m c)) \<noteq> []),
     (''future_timestamps'', frame (safe_check (a_future_ts_1m c)) \<noteq> []),
     (''enhanced_ohlc_issues'', frame (safe_check (a_enhanced_ohlc c)) \<noteq> []),
     (''volume_issues'', frame (safe_check (a_volume_issues c)) \<noteq> []),
     (''large_price_jumps'', frame (safe_check (a_price_jumps c)) \<noteq> []),
     (''cross_timeframe_mismatch'', frame (safe_check (a_cross_tf_consistency c)) \<noteq> []),
     (''staleness_warning'', 0 < warning sc),
     (''staleness_critical'', 0 < critical sc)]"
    unfolding run_phase_a_def reg u
    by (auto simp: Let_def result_flag_def list_ex_iff)
  with st show ?thesis by blast
qed

text \<open>The problem flags of Phase B, from what its checks returned.\<close>

lemma phase_b_flags:
  assumes "run_phase_b c = Inr r"
  shows "b_problem_flags r =
    [(''insufficient_historical_coverage'',
        \<not> (case qdf (b_coverage_check c) of [] \<Rightarrow> False | row # rest \<Rightarrow> sufficient_coverage row = Some True)),
     (''integrity_issues_1m'', frame (safe_check (b_integrity_1m c)) \<noteq> []),
     (''enhanced_ohlc_issues'', frame (safe_check (b_enhanced_ohlc_hist c)) \<noteq> []),
     (''volume_issues'', frame (safe_check (b_volume_issues_hist c)) \<noteq> []),
     (''dxy_component_dependency_fail'',
        first_positive dxy_minutes_with_missing_or_invalid_components
          (frame (safe_check (b_dxy_component_dependency c)))),
     (''dxy_missing_5m_or_1h'',
        frame (safe_check (b_dxy_counts_5m c)) = [] \<or> frame (safe_check (b_dxy_counts_1h c)) = []),
     (''dxy_misaligned_5m'', first_positive misaligned_count (only_dxy (frame (safe_check (b_dxy_align_5m c))))),
     (''dxy_misaligned_1h'', first_positive misaligned_count (only_dxy (frame (safe_check (b_dxy_align_1h c)))))]"
proof -
  from assms obtain active where "get_active_assets (b_registry c) = Inr active"
    using run_phase_b_returns[of c] by fastforce
  moreover have "(case qdf (b_coverage_check c) of [] \<Rightarrow> False
                  | row # rest \<Rightarrow> if py_not (sufficient_coverage row) then False else True)
      = (case qdf (b_coverage_check c) of [] \<Rightarrow> False | row # rest \<Rightarrow> sufficient_coverage row = Some True)"
    by (auto simp: py_not_def split: list.splits option.splits)
  moreover have "frame (safe_check (Inr df)) = df" for df :: "coverage_check_row list"
    by (simp add: safe_check_def)
  ultimately show ?thesis
    using assms
    by (auto simp: run_phase_b_def Let_def result_flag_def)
qed

lemma main_exit:
  "main phase io ca cb ce = 0 \<longleftrightarrow>
     io_connect io = Inr ()
     \<and> ((phase = PhaseA \<or> phase = PhaseALL) \<longrightarrow>
          (\<exists>ra. run_phase_a ca = Inr ra \<and> no_flag_set (a_problem_flags ra)))
     \<and> ((phase = PhaseB \<or> phase = PhaseALL) \<longrightarrow>
          (\<exists>rb. run_phase_b cb = Inr rb \<and> no_flag_set (b_problem_flags rb)))
     \<and> io_mkdir io = Inr () \<and> io_write_reports io = Inr ()"
  by (cases phase; cases "io_connect io"; cases "run_phase_a ca"; cases "run_phase_b cb";
      cases "io_mkdir io"; cases "io_write_reports io")
     (simp_all add: main_def all_ok_iff Let_def)

lemma main_status: "main phase io ca cb ce = 0 \<or> main phase io ca cb ce = 1"
  by (simp add: main_def Let_def split: sum.splits)

text \<open>
  C8 (as amended). The flags are set from what the checks returned, a check that raised
  counting as the empty frame. A flag built with \<open>result_flag\<close> is true exactly when the
  frame of its check is not empty; the alignment and coverage flags are true exactly when a
  row of the frame has a positive count, the dependency and DXY alignment flags of Phase B
  when the first row has; \<open>dxy_missing_data\<close> and \<open>dxy_missing_5m_or_1h\<close> are true exactly
  when a DXY count frame is empty; the staleness flags are true exactly when the counts the
  staleness check returned are positive; \<open>insufficient_historical_coverage\<close> is true unless
  the first row of the coverage query says the coverage is sufficient; the count and gap
  density frames of Phase B have no flag. Once its command line is parsed, the process
  exits with status 0 exactly when the connection was made, every phase that was asked for returned with no flag true, and the
  output directory and the two reports were written; otherwise it exits with 1.
\<close>

theorem verdict_flags_and_exit:
  "(run_phase_a ca = Inr ra \<longrightarrow>
      (\<exists>freshness counts. a_staleness ca = Inr (freshness, counts) \<and> a_problem_flags ra =
           [(''duplicates_data_bars_1m'', frame (safe_check (a_dup_data ca)) \<noteq> []),
            (''duplicates_derived'', frame (safe_check (a_dup_derived ca)) \<noteq> []),
            (''misaligned_5m'', \<exists>row \<in> set (frame (safe_check (a_align_5m ca))). 0 < misaligned_count row),
            (''misaligned_1h'', \<exists>row \<in> set (frame (safe_check (a_align_1h ca))). 0 < misaligned_count row),
            (''misaligned_1d'', \<exists>row \<in> set (frame (safe_check (a_align_1d ca))). 0 < misaligned_count row),
            (''bad_5m_coverage_strict'', \<exists>row \<in> set (frame (safe_check (a_agg_cov_5m ca))). 0 < bad_5m_bars row),
            (''bad_1h_coverage_strict'', \<exists>row \<in> set (frame (safe_check (a_agg_cov_1h ca))). 0 < bad_1h_bars row),
            (''dxy_missing_data'',
               frame (safe_check (a_dxy_counts_1m ca)) = [] \<or> frame (safe_check (a_dxy_counts_5m ca)) = []
               \<or> frame (safe_check (a_dxy_counts_1h ca)) = [] \<or> frame (safe_check (a_dxy_counts_1d ca)) = []),
            (''non_monotonic_timestamps'', frame (safe_check (a_monotonic_1m ca)) \<noteq> []),
            (''future_timestamps'', frame (safe_check (a_future_ts_1m ca)) \<noteq> []),
            (''enhanced_ohlc_issues'', frame (safe_check (a_enhanced_ohlc ca)) \<noteq> []),
            (''volume_issues'', frame (safe_check (a_volume_issues ca)) \<noteq> []),
            (''large_price_jumps'', frame (safe_check (a_price_jumps ca)) \<noteq> []),
            (''cross_timeframe_mismatch'', frame (safe_check (a_cross_tf_consistency ca)) \<noteq> []),
            (''staleness_warning'', 0 < warning counts),
            (''staleness_critical'', 0 < critical counts)]))
   \<and> (run_phase_b cb = Inr rb \<longrightarrow> b_problem_flags rb =
        [(''insufficient_historical_coverage'',
            \<not> (case qdf (b_coverage_check cb) of [] \<Rightarrow> False
                | row # rest \<Rightarrow> sufficient_coverage row = Some True)),
         (''integrity_issues_1m'', frame (safe_check (b_integrity_1m cb)) \<noteq> []),
         (''enhanced_ohlc_issues'', frame (safe_check (b_enhanced_ohlc_hist cb)) \<noteq> []),
         (''volume_issues'', frame (safe_check (b_volume_issues_hist cb)) \<noteq> []),
         (''dxy_component_dependency_fail'',
            first_positive dxy_minutes_with_missing_or_invalid_components
              (frame (safe_check (b_dxy_component_dependency cb)))),
         (''dxy_missing_5m_or_1h'',
            frame (safe_check (b_dxy_counts_5m cb)) = [] \<or> frame (safe_check (b_dxy_counts_1h cb)) = []),
         (''dxy_misaligned_5m'',
            first_positive misaligned_count (only_dxy (frame (safe_check (b_dxy_align_5m cb))))),
         (''dxy_misaligned_1h'',
            first_positive misaligned_count (only_dxy (frame (safe_check (b_dxy_align_1h cb)))))])
   \<and> (main phase io ca cb ce = 0 \<longleftrightarrow>
        io_connect io = Inr ()
        \<and> ((phase = PhaseA \<or> phase = PhaseALL) \<longrightarrow>
             (\<exists>r. run_phase_a ca = Inr r \<and> no_flag_set (a_problem_flags r)))
        \<and> ((phase = PhaseB \<or> phase = PhaseALL) \<longrightarrow>
             (\<exists>r. run_phase_b cb = Inr r \<and> no_flag_set (b_problem_flags r)))
        \<and> io_mkdir io = Inr () \<and> io_write_reports io = Inr ())
   \<and> (main phase io ca cb ce = 0 \<or> main phase io ca cb ce = 1)"
proof (intro conjI impI)
  assume "run_phase_a ca = Inr ra"
  then show "\<exists>freshness counts. a_staleness ca = Inr (freshness, counts) \<and> a_problem_flags ra =
           [(''duplicates_data_bars_1m'', frame (safe_check (a_dup_data ca)) \<noteq> []),
            (''duplicates_derived'', frame (safe_check (a_dup_derived ca)) \<noteq> []),
            (''misaligned_5m'', \<exists>row \<in> set (frame (safe_check (a_align_5m ca))). 0 < misaligned_count row),
            (''misaligned_1h'', \<exists>row \<in> set (frame (safe_check (a_align_1h ca))). 0 < misaligned_count row),
            (''misaligned_1d'', \<exists>row \<in> set (frame (safe_check (a_align_1d ca))). 0 < misaligned_count row),
            (''bad_5m_coverage_strict'', \<exists>row \<in> set (frame (safe_check (a_agg_cov_5m ca))). 0 < bad_5m_bars row),
            (''bad_1h_coverage_strict'', \<exists>row \<in> set (frame (safe_check (a_agg_cov_1h ca))). 0 < bad_1h_bars row),
            (''dxy_missing_data'',
               frame (safe_check (a_dxy_counts_1m ca)) = [] \<or> frame (safe_check (a_dxy_counts_5m ca)) = []
               \<or> frame (safe_check (a_dxy_counts_1h ca)) = [] \<or> frame (safe_check (a_dxy_counts_1d ca)) = []),
            (''non_monotonic_timestamps'', frame (safe_check (a_monotonic_1m ca)) \<noteq> []),
            (''future_timestamps'', frame (safe_check (a_future_ts_1m ca)) \<noteq> []),
            (''enhanced_ohlc_issues'', frame (safe_check (a_enhanced_ohlc ca)) \<noteq> []),
            (''volume_issues'', frame (safe_check (a_volume_issues ca)) \<noteq> []),
            (''large_price_jumps'', frame (safe_check (a_price_jumps ca)) \<noteq> []),
            (''cross_timeframe_mismatch'', frame (safe_check (a_cross_tf_consistency ca)) \<noteq> []),
            (''staleness_warning'', 0 < warning counts),
            (''staleness_critical'', 0 < critical counts)]"
    by (rule phase_a_flags)
next
  assume "run_phase_b cb = Inr rb"
  then show "b_problem_flags rb =
        [(''insufficient_historical_coverage'',
            \<not> (case qdf (b_coverage_check cb) of [] \<Rightarrow> False
                | row # rest \<Rightarrow> sufficient_coverage row = Some True)),
         (''integrity_issues_1m'', frame (safe_check (b_integrity_1m cb)) \<noteq> []),
         (''enhanced_ohlc_issues'', frame (safe_check (b_enhanced_ohlc_hist cb)) \<noteq> []),
         (''volume_issues'', frame (safe_check (b_volume_issues_hist cb)) \<noteq> []),
         (''dxy_component_dependency_fail'',
            first_positive dxy_minutes_with_missing_or_invalid_components
              (frame (safe_check (b_dxy_component_dependency cb)))),
         (''dxy_missing_5m_or_1h'',
            frame (safe_check (b_dxy_counts_5m cb)) = [] \<or> frame (safe_check (b_dxy_counts_1h cb)) = []),
         (''dxy_misaligned_5m'',
            first_positive misaligned_count (only_dxy (frame (safe_check (b_dxy_align_5m cb))))),
         (''dxy_misaligned_1h'',
            first_positive misaligned_count (only_dxy (frame (safe_check (b_dxy_align_1h cb)))))]"
    by (rule phase_b_flags)
next
  show "main phase io ca cb ce = 0 \<longleftrightarrow>
        io_connect io = Inr ()
        \<and> ((phase = PhaseA \<or> phase = PhaseALL) \<longrightarrow>
             (\<exists>r. run_phase_a ca = Inr r \<and> no_flag_set (a_problem_flags r)))
        \<and> ((phase = PhaseB \<or> phase = PhaseALL) \<longrightarrow>
             (\<exists>r. run_phase_b cb = Inr r \<and> no_flag_set (b_problem_flags r)))
        \<and> io_mkdir io = Inr () \<and> io_write_reports io = Inr ()"
    by (rule main_exit)
next
  show "main phase io ca cb ce = 0 \<or> main phase io ca cb ce = 1"
    by (rule main_status)
qed

lemma finding_a_returns: "\<exists>r. run_phase_a finding_a = Inr r"
  unfolding run_phase_a_returns
  by (simp add: finding_a_def clean_a_def run_defs)

lemma clean_a_run:
  "map_sum id (\<lambda>r. no_flag_set (a_problem_flags r)) (run_phase_a clean_a) = Inr True"
  by (simp add: run_phase_a_def clean_a_def one_row_def run_defs Let_def no_flag_set_def)

lemma clean_b_run:
  "map_sum id (\<lambda>r. no_flag_set (b_problem_flags r)) (run_phase_b clean_b) = Inr True"
  by (simp add: run_phase_b_def clean_b_def one_row_def run_defs Let_def no_flag_set_def
        py_not_def first_positive_def only_dxy_def)

theorem verdict_flags_and_exit_witness:
  "map_sum id a_problem_flags (run_phase_a finding_a)
     = Inr [(''duplicates_data_bars_1m'', True), (''duplicates_derived'', False),
            (''misaligned_5m'', True), (''misaligned_1h'', False), (''misaligned_1d'', False),
            (''bad_5m_coverage_strict'', False), (''bad_1h_coverage_strict'', False),
            (''dxy_missing_data'', False), (''non_monotonic_timestamps'', False),
            (''future_timestamps'', False), (''enhanced_ohlc_issues'', False),
            (''volume_issues'', False), (''large_price_jumps'', False),
            (''cross_timeframe_mismatch'', False), (''staleness_warning'', False),
            (''staleness_critical'', False)]
   \<and> main PhaseA io_ok finding_a clean_b clean_e = 1
   \<and> map_sum id (\<lambda>r. no_flag_set (a_problem_flags r)) (run_phase_a clean_a) = Inr True
   \<and> map_sum id (\<lambda>r. no_flag_set (b_problem_flags r)) (run_phase_b clean_b) = Inr True
   \<and> main PhaseALL io_ok clean_a clean_b clean_e = 0"
proof -
  from finding_a_returns obtain rf where f: "run_phase_a finding_a = Inr rf" by blast
  from clean_a_run obtain ra where a: "run_phase_a clean_a = Inr ra" "no_flag_set (a_problem_flags ra)"
    by (cases "run_phase_a clean_a") auto
  from clean_b_run obtain rb where b: "run_phase_b clean_b = Inr rb" "no_flag_set (b_problem_flags rb)"
    by (cases "run_phase_b clean_b") auto
  note found = verdict_flags_and_exit[of finding_a rf clean_b rb PhaseA io_ok clean_e]
  note clean = verdict_flags_and_exit[of clean_a ra clean_b rb PhaseALL io_ok clean_e]
  from found f have flags: "a_problem_flags rf =
          [(''duplicates_data_bars_1m'', True), (''duplicates_derived'', False),
            (''misaligned_5m'', True), (''misaligned_1h'', False), (''misaligned_1d'', False),
            (''bad_5m_coverage_strict'', False), (''bad_1h_coverage_strict'', False),
            (''dxy_missing_data'', False), (''non_monotonic_timestamps'', False),
            (''future_timestamps'', False), (''enhanced_ohlc_issues'', False),
            (''volume_issues'', False), (''large_price_jumps'', False),
            (''cross_timeframe_mismatch'', False), (''staleness_warning'', False),
            (''staleness_critical'', False)]"
    by (auto simp: finding_a_def clean_a_def one_row_def safe_check_def)
  then have "\<not> no_flag_set (a_problem_flags rf)"
    by (simp add: no_flag_set_def)
  with found f have "main PhaseA io_ok finding_a clean_b clean_e = 1"
    by auto
  moreover from clean a b have "main PhaseALL io_ok clean_a clean_b clean_e = 0"
    by (simp add: io_ok_def)
  ultimately show ?thesis
    using f flags clean_a_run clean_b_run by simp
qed

text \<open>
  C8 (as stated) fails. With every frame of Phase A empty, and so no finding at all,
  \<open>dxy_missing_data\<close> is true and the process exits with 1: that flag is true when its
  frames are empty. The gap density frame of Phase B has rows, with a gap event, while no
  flag is true and the process exits with 0. And a run in which no flag is true exits with
  1 when its reports cannot be written.
\<close>

theorem verdict_empty_frames_counterexample:
  "map_sum id (\<lambda>r. (da_dxy_counts_1m (a_data r), flag_of (a_problem_flags r) ''dxy_missing_data''))
      (run_phase_a all_empty_a) = Inr ([], Some True)
   \<and> main PhaseA io_ok all_empty_a clean_b clean_e = 1
   \<and> map_sum id (\<lambda>r. (map gap_events (db_gap_density_1m (b_data r)), no_flag_set (b_problem_flags r)))
      (run_phase_b clean_b) = Inr ([1], True)
   \<and> main PhaseB io_ok clean_a clean_b clean_e = 0
   \<and> map_sum id (\<lambda>r. no_flag_set (a_problem_flags r)) (run_phase_a clean_a) = Inr True
   \<and> main PhaseA (io_ok\<lparr>io_write_reports := Inl (OSError ''Permission denied'')\<rparr>)
        clean_a clean_b clean_e = 1
   \<and> main PhaseA (io_ok\<lparr>io_mkdir := Inl (OSError ''Read-only file system'')\<rparr>)
        clean_a clean_b clean_e = 1"
  by (simp add: main_def run_phase_a_def run_phase_b_def all_empty_a_def clean_a_def clean_b_def
        io_ok_def one_row_def run_defs Let_def no_flag_set_def flag_of_def all_ok_def
        py_not_def first_positive_def only_dxy_def)

section \<open>Coverage guardrail\<close>

lemma fold_min_in: "fold min ts (t::int) \<in> set (t # ts)"
  unfolding Min.set_eq_fold[symmetric] by (rule Min_in) simp_all

lemma fold_min_le: "x \<in> set (t # ts) \<Longrightarrow> fold min ts (t::int) \<le> x"
  unfolding Min.set_eq_fold[symmetric] by (rule Min_le) simp_all

text \<open>\<open>min_ts_1m\<close> is the earliest 1-minute timestamp of the table.\<close>

lemma min_ts_1m_earliest:
  assumes "\<exists>b \<in> set data_bars. timeframe b = ''1m''"
  shows "\<exists>b \<in> set data_bars. timeframe b = ''1m'' \<and> min_ts_1m data_bars = Some (ts_utc b)
           \<and> (\<forall>b' \<in> set data_bars. timeframe b' = ''1m'' \<longrightarrow> ts_utc b \<le> ts_utc b')"
proof -
  let ?ts = "map ts_utc (filter (\<lambda>b. timeframe b = ''1m'') data_bars)"
  from assms have "?ts \<noteq> []" by (auto simp: filter_empty_conv)
  then obtain t ts where eq: "?ts = t # ts" by (cases ?ts) auto
  then have m: "min_ts_1m data_bars = Some (fold min ts t)"
    by (simp add: min_ts_1m_def)
  from fold_min_in[of ts t] eq have "fold min ts t \<in> set ?ts" by simp
  then obtain b where b: "b \<in> set data_bars" "timeframe b = ''1m''" "ts_utc b = fold min ts t"
    by auto
  have "ts_utc b \<le> ts_utc b'" if "b' \<in> set data_bars" "timeframe b' = ''1m''" for b'
  proof -
    from that have "ts_utc b' \<in> set ?ts" by auto
    with eq have "ts_utc b' \<in> set (t # ts)" by simp
    from fold_min_le[OF this] b(3) show ?thesis by simp
  qed
  with b m show ?thesis by auto
qed

text \<open>
  C9. When the table has 1-minute bars and the earliest of them is later than
  \<open>hist_start\<close> (now minus the requested years) plus the grace period of seven days, and
  the registry query has returned the active assets, \<open>run_phase_b\<close> returns with
  \<open>insufficient_historical_coverage\<close> set, and the frame of every other historical check
  is in its result, empty only if the check was empty or raised.
\<close>

theorem insufficient_coverage_flag:
  assumes reg: "get_active_assets (b_registry c) = Inr active"
    and cov: "b_coverage_check c = Inr (coverage_check_sql data_bars hist_start)"
    and some: "\<exists>b \<in> set data_bars. timeframe b = ''1m''"
    and late: "\<forall>b \<in> set data_bars. timeframe b = ''1m'' \<longrightarrow>
                 hist_start + grace_days * usec_per_day < ts_utc b"
  shows "\<exists>r. run_phase_b c = Inr r
           \<and> flag_of (b_problem_flags r) ''insufficient_historical_coverage'' = Some True
           \<and> \<not> coverage_guardrail_passed r
           \<and> db_integrity_1m (b_data r) = frame (safe_check (b_integrity_1m c))
           \<and> db_counts_1m (b_data r) = frame (safe_check (b_counts_1m c))
           \<and> db_gap_density_1m (b_data r) = frame (safe_check (b_gap_density_1m c))
           \<and> db_enhanced_ohlc_integrity (b_data r) = frame (safe_check (b_enhanced_ohlc_hist c))
           \<and> db_volume_integrity (b_data r) = frame (safe_check (b_volume_issues_hist c))
           \<and> db_dxy_counts_1m (b_data r) = frame (safe_check (b_dxy_counts_1m c))
           \<and> db_dxy_counts_5m (b_data r) = frame (safe_check (b_dxy_counts_5m c))
           \<and> db_dxy_counts_1h (b_data r) = frame (safe_check (b_dxy_counts_1h c))
           \<and> db_dxy_component_dependency (b_data r) = frame (safe_check (b_dxy_component_dependency c))
           \<and> db_dxy_alignment_5m (b_data r) = only_dxy (frame (safe_check (b_dxy_align_5m c)))
           \<and> db_dxy_alignment_1h (b_data r) = only_dxy (frame (safe_check (b_dxy_align_1h c)))"
proof -
  from min_ts_1m_earliest[OF some] late obtain t where
    t: "min_ts_1m data_bars = Some t" "hist_start + grace_days * usec_per_day < t"
    by blast
  then have "coverage_check_sql data_bars hist_start =
      [\<lparr>earliest_ts = Some t, required_min_ts = hist_start + grace_days * usec_per_day,
        sufficient_coverage = Some False\<rparr>]"
    by (simp add: coverage_check_sql_def Let_def)
  with reg cov show ?thesis
    by (simp add: run_phase_b_def Let_def qdf_def safe_check_def py_not_def flag_of_def)
qed

theorem insufficient_coverage_flag_witness:
  "get_active_assets (b_registry (clean_b\<lparr>b_coverage_check :=
       Inr (coverage_check_sql example_components (- 8 * usec_per_day))\<rparr>)) = Inr [''DXY'']
   \<and> coverage_check_sql example_components (- 8 * usec_per_day)
       = [\<lparr>earliest_ts = Some 0, required_min_ts = - usec_per_day, sufficient_coverage = Some False\<rparr>]
   \<and> map_sum id (\<lambda>r. (flag_of (b_problem_flags r) ''insufficient_historical_coverage'',
                       map gap_events (db_gap_density_1m (b_data r))))
        (run_phase_b (clean_b\<lparr>b_coverage_check :=
           Inr (coverage_check_sql example_components (- 8 * usec_per_day))\<rparr>))
       = Inr (Some True, [1])"
proof -
  let ?c = "clean_b\<lparr>b_coverage_check := Inr (coverage_check_sql example_components (- 8 * usec_per_day))\<rparr>"
  have reg: "get_active_assets (b_registry ?c) = Inr [''DXY'']"
    by (simp add: clean_b_def run_defs)
  have cov: "b_coverage_check ?c = Inr (coverage_check_sql example_components (- 8 * usec_per_day))"
    by simp
  have some: "\<exists>b \<in> set example_components. timeframe b = ''1m''"
    by (simp add: example_defs)
  have late: "\<forall>b \<in> set example_components. timeframe b = ''1m'' \<longrightarrow>
                 - 8 * usec_per_day + grace_days * usec_per_day < ts_utc b"
    by (simp add: example_defs grace_days_def usec_per_day_def)
  have sql: "coverage_check_sql example_components (- 8 * usec_per_day)
       = [\<lparr>earliest_ts = Some 0, required_min_ts = - usec_per_day, sufficient_coverage = Some False\<rparr>]"
    by (simp add: coverage_check_sql_def min_ts_1m_def example_defs grace_days_def usec_per_day_def)
  from insufficient_coverage_flag[OF reg cov some late]
  obtain r where r: "run_phase_b ?c = Inr r"
      "flag_of (b_problem_flags r) ''insufficient_historical_coverage'' = Some True"
      "db_gap_density_1m (b_data r) = frame (safe_check (b_gap_density_1m ?c))"
    by blast
  from r(3) have "map gap_events (db_gap_density_1m (b_data r)) = [1]"
    by (simp add: clean_b_def safe_check_def)
  with r(1,2) reg sql show ?thesis by simp
qed

end
